theory Spec2Isabelle
  imports Complex_Main
begin

section \<open>Python values\<close>

text \<open>
  The generator works on the result of \<^verbatim>\<open>json.load\<close>: nested dictionaries and lists with
  scalars at the leaves, typed \<^verbatim>\<open>Dict[str, Any]\<close> in the source. A dictionary is an
  association list in insertion order. Keys are values themselves, because the input
  schema is keyed by \<^verbatim>\<open>param['name']\<close>, which is whatever the document holds there.
  A float is held by its exact value, a rational; the values \<^verbatim>\<open>NaN\<close> and
  \<^verbatim>\<open>Infinity\<close>, which \<^verbatim>\<open>json.load\<close> accepts beyond JSON, have no constructor here.
  Characters are the ASCII ones: the case conversions below leave every other character
  as it is.
\<close>

datatype py =
    PNone
  | PBool bool
  | PInt int
  | PFloat rat
  | PStr string
  | PList "py list"
  | PDict "(py \<times> py) list"

text \<open>The exceptions the generator can raise on a document of the wrong shape.\<close>

datatype error = AttributeError | KeyError | TypeError

type_synonym dict = "(py \<times> py) list"

definition bind :: "error + 'a \<Rightarrow> ('a \<Rightarrow> error + 'b) \<Rightarrow> error + 'b" where
  "bind m f = (case m of Inl e \<Rightarrow> Inl e | Inr x \<Rightarrow> f x)"

text \<open>Truth value of a Python object, as \<^verbatim>\<open>if x:\<close> tests it.\<close>

fun truthy :: "py \<Rightarrow> bool" where
  "truthy PNone = False"
| "truthy (PBool b) = b"
| "truthy (PInt i) = (i \<noteq> 0)"
| "truthy (PFloat r) = (r \<noteq> 0)"
| "truthy (PStr s) = (s \<noteq> [])"
| "truthy (PList xs) = (xs \<noteq> [])"
| "truthy (PDict d) = (d \<noteq> [])"

text \<open>
  Dictionary keys: lists and dictionaries are unhashable; \<^verbatim>\<open>True\<close>, \<^verbatim>\<open>1\<close> and
  \<^verbatim>\<open>1.0\<close> are the same key (they are equal and hash alike), as are a float with an
  integral value and that integer.
\<close>

fun hashable :: "py \<Rightarrow> bool" where
  "hashable (PList xs) = False"
| "hashable (PDict d) = False"
| "hashable v = True"

fun norm_key :: "py \<Rightarrow> py" where
  "norm_key (PBool b) = PInt (if b then 1 else 0)"
| "norm_key (PFloat r) = (if of_int \<lfloor>r\<rfloor> = r then PInt \<lfloor>r\<rfloor> else PFloat r)"
| "norm_key v = v"

definition key_eq :: "py \<Rightarrow> py \<Rightarrow> bool" where
  "key_eq a b = (hashable a \<and> hashable b \<and> norm_key a = norm_key b)"

fun dict_get :: "dict \<Rightarrow> py \<Rightarrow> py option" where
  "dict_get [] k = None"
| "dict_get ((k', v) # d) k = (if key_eq k' k then Some v else dict_get d k)"

text \<open>
  \<^verbatim>\<open>d[k] = v\<close> on the association list: an existing key keeps its place (and the key
  object first stored), a new key goes to the end.
\<close>

fun dict_put :: "dict \<Rightarrow> py \<Rightarrow> py \<Rightarrow> dict" where
  "dict_put [] k v = [(k, v)]"
| "dict_put ((k', v') # d) k v =
     (if key_eq k' k then (k', v) # d else (k', v') # dict_put d k v)"

definition dict_set :: "dict \<Rightarrow> py \<Rightarrow> py \<Rightarrow> error + dict" where
  "dict_set d k v = (if hashable k then Inr (dict_put d k v) else Inl TypeError)"

text \<open>\<^verbatim>\<open>obj.get(key, default)\<close>: only a dictionary has the method.\<close>

definition py_get :: "py \<Rightarrow> string \<Rightarrow> py \<Rightarrow> error + py" where
  "py_get obj key dflt =
     (case obj of
        PDict d \<Rightarrow> Inr (case dict_get d (PStr key) of Some v \<Rightarrow> v | None \<Rightarrow> dflt)
      | _ \<Rightarrow> Inl AttributeError)"

text \<open>\<^verbatim>\<open>obj[key]\<close> with a string key.\<close>

definition py_index :: "py \<Rightarrow> string \<Rightarrow> error + py" where
  "py_index obj key =
     (case obj of
        PDict d \<Rightarrow> (case dict_get d (PStr key) of Some v \<Rightarrow> Inr v | None \<Rightarrow> Inl KeyError)
      | _ \<Rightarrow> Inl TypeError)"

text \<open>\<^verbatim>\<open>obj.items()\<close>.\<close>

definition py_items :: "py \<Rightarrow> error + dict" where
  "py_items obj = (case obj of PDict d \<Rightarrow> Inr d | _ \<Rightarrow> Inl AttributeError)"

text \<open>
  What a \<^verbatim>\<open>for\<close> loop (or \<^verbatim>\<open>list.extend\<close>, or a generator expression) sees: the
  elements of a list, the keys of a dictionary, the characters of a string.
\<close>

definition py_iter :: "py \<Rightarrow> error + py list" where
  "py_iter obj =
     (case obj of
        PList xs \<Rightarrow> Inr xs
      | PDict d \<Rightarrow> Inr (map fst d)
      | PStr s \<Rightarrow> Inr (map (\<lambda>c. PStr [c]) s)
      | _ \<Rightarrow> Inl TypeError)"

section \<open>Strings\<close>

text \<open>
  \<^verbatim>\<open>str.lower()\<close> and \<^verbatim>\<open>str.upper()\<close> on ASCII text: the letters \<^verbatim>\<open>A\<close> to \<^verbatim>\<open>Z\<close> and
  \<^verbatim>\<open>a\<close> to \<^verbatim>\<open>z\<close> are mapped, every other ASCII character is kept. Python also maps the
  letters outside ASCII; the definitions below keep them, so they are Python's functions
  on ASCII strings only (\<^verbatim>\<open>isascii\<close>), and a result on the letters of a string is stated
  for ASCII strings.
\<close>

definition lower_char :: "char \<Rightarrow> char" where
  "lower_char c =
     (let n = (of_char c :: nat) in if 65 \<le> n \<and> n \<le> 90 then char_of (n + 32) else c)"

definition upper_char :: "char \<Rightarrow> char" where
  "upper_char c =
     (let n = (of_char c :: nat) in if 97 \<le> n \<and> n \<le> 122 then char_of (n - 32) else c)"

definition lower :: "string \<Rightarrow> string" where
  "lower s = map lower_char s"

definition upper :: "string \<Rightarrow> string" where
  "upper s = map upper_char s"

text \<open>\<^verbatim>\<open>s.isascii()\<close>: every character of the string is below 128.\<close>

definition isascii :: "string \<Rightarrow> bool" where
  "isascii s = list_all (\<lambda>c. (of_char c :: nat) < 128) s"

text \<open>
  \<^verbatim>\<open>str.capitalize()\<close> on ASCII text: the first character in upper case, all the others
  in lower case.
\<close>

fun capitalize :: "string \<Rightarrow> string" where
  "capitalize [] = []"
| "capitalize (c # cs) = upper_char c # map lower_char cs"

definition startswith :: "string \<Rightarrow> string \<Rightarrow> bool" where
  "startswith s p = (take (length p) s = p)"

text \<open>\<^verbatim>\<open>needle in s\<close> on strings: a contiguous occurrence.\<close>

fun str_contains :: "string \<Rightarrow> string \<Rightarrow> bool" where
  "str_contains [] needle = (needle = [])"
| "str_contains (c # cs) needle = (startswith (c # cs) needle \<or> str_contains cs needle)"

text \<open>\<^verbatim>\<open>s.split(sep)\<close> with a one-character separator: never the empty list.\<close>

fun split_on :: "char \<Rightarrow> string \<Rightarrow> string list" where
  "split_on sep [] = [[]]"
| "split_on sep (c # cs) =
     (if c = sep then [] # split_on sep cs
      else (case split_on sep cs of
              w # ws \<Rightarrow> (c # w) # ws
            | [] \<Rightarrow> [[c]]))"

text \<open>\<^verbatim>\<open>sep.join(xs)\<close>.\<close>

fun join :: "string \<Rightarrow> string list \<Rightarrow> string" where
  "join sep [] = []"
| "join sep [x] = x"
| "join sep (x # y # ys) = x @ sep @ join sep (y # ys)"

text \<open>
  \<^verbatim>\<open>re.sub(r'\{[^}]+\}', '', path)\<close>. Scanning from the left, an opening brace starts a match
  when it is followed by at least one character other than a closing brace and the run of
  such characters is ended by a closing brace; the match is dropped and the scan goes on
  behind it. The run is greedy and may hold opening braces and slashes.
\<close>

function strip_params :: "string \<Rightarrow> string" where
  "strip_params [] = []"
| "strip_params (c # cs) =
     (if c = CHR ''{'' \<and> takeWhile (\<lambda>x. x \<noteq> CHR ''}'') cs \<noteq> []
           \<and> dropWhile (\<lambda>x. x \<noteq> CHR ''}'') cs \<noteq> []
      then strip_params (tl (dropWhile (\<lambda>x. x \<noteq> CHR ''}'') cs))
      else c # strip_params cs)"
  by pat_completeness auto
termination
proof (relation "measure length")
  show "wf (measure length)" by simp
next
  fix c :: char and cs :: string
  assume "c = CHR ''{'' \<and> takeWhile (\<lambda>x. x \<noteq> CHR ''}'') cs \<noteq> []
           \<and> dropWhile (\<lambda>x. x \<noteq> CHR ''}'') cs \<noteq> []"
  have "length (dropWhile (\<lambda>x. x \<noteq> CHR ''}'') cs) \<le> length cs"
    by (rule length_dropWhile_le)
  then have "length (tl (dropWhile (\<lambda>x. x \<noteq> CHR ''}'') cs)) \<le> length cs"
    by simp
  then show "(tl (dropWhile (\<lambda>x. x \<noteq> CHR ''}'') cs), c # cs) \<in> measure length"
    by simp
next
  fix c :: char and cs :: string
  show "(cs, c # cs) \<in> measure length" by simp
qed

section \<open>Operation names\<close>

text \<open>The verb chosen by \<^verbatim>\<open>_generate_operation_id\<close> (the local \<^verbatim>\<open>prefix\<close>).\<close>

definition verb_prefix :: "string \<Rightarrow> string \<Rightarrow> string" where
  "verb_prefix path method =
     (if lower method = ''get'' then ''get''
      else if lower method = ''post'' then
        (if str_contains (lower path) ''create'' then ''create'' else ''post'')
      else if lower method = ''put'' then ''update''
      else if lower method = ''delete'' then ''delete''
      else lower method)"

definition generate_operation_id :: "string \<Rightarrow> string \<Rightarrow> string" where
  "generate_operation_id path method =
     (let clean_path = strip_params path;
          parts = filter (\<lambda>part. part \<noteq> []) (split_on (CHR ''/'') clean_path);
          prefix = verb_prefix path method
      in if parts \<noteq> [] then prefix @ concat (map capitalize parts)
         else prefix @ ''Root'')"

text \<open>
  Paths written segment by segment, to state what the synthesizer does with them: a
  parameter segment is a brace pair around a non-empty name, a plain segment has no
  opening brace.
\<close>

definition is_param_segment :: "string \<Rightarrow> bool" where
  "is_param_segment s =
     (3 \<le> length s \<and> hd s = CHR ''{'' \<and> last s = CHR ''}''
      \<and> CHR ''}'' \<notin> set (butlast (tl s)) \<and> CHR ''/'' \<notin> set s)"

definition is_plain_segment :: "string \<Rightarrow> bool" where
  "is_plain_segment s = (CHR ''{'' \<notin> set s \<and> CHR ''/'' \<notin> set s)"

definition path_of :: "string list \<Rightarrow> string" where
  "path_of segs = concat (map (\<lambda>s. CHR ''/'' # s) segs)"

definition remaining_segments :: "string list \<Rightarrow> string list" where
  "remaining_segments segs = filter (\<lambda>s. s \<noteq> [] \<and> \<not> is_param_segment s) segs"

section \<open>The generator\<close>

text \<open>
  \<^verbatim>\<open>x in container\<close> for a key \<^verbatim>\<open>x\<close>: element equality on a list, key lookup on a
  dictionary, substring search on a string (which takes a string only).
\<close>

definition py_in :: "py \<Rightarrow> py \<Rightarrow> error + bool" where
  "py_in x container =
     (case container of
        PList xs \<Rightarrow> Inr (list_ex (key_eq x) xs)
      | PDict d \<Rightarrow> if hashable x then Inr (dict_get d x \<noteq> None) else Inl TypeError
      | PStr s \<Rightarrow> (case x of PStr n \<Rightarrow> Inr (str_contains s n) | _ \<Rightarrow> Inl TypeError)
      | _ \<Rightarrow> Inl TypeError)"

text \<open>
  A value inside an f-string. A string stands for itself; for any other value the text is
  what the interpreter's \<^verbatim>\<open>str()\<close> gives, taken as the parameter \<open>str_of\<close>.
\<close>

definition fstr :: "(py \<Rightarrow> string) \<Rightarrow> py \<Rightarrow> string" where
  "fstr str_of v = (case v of PStr s \<Rightarrow> s | _ \<Rightarrow> str_of v)"

text \<open>The object built by \<^verbatim>\<open>OpenAPIToMCP.__init__\<close>.\<close>

record openapi_to_mcp =
  spec :: py
  info :: py
  servers :: py
  paths :: py
  components :: py
  security :: py

definition init :: "py \<Rightarrow> error + openapi_to_mcp" where
  "init openapi_spec =
     bind (py_get openapi_spec ''info'' (PDict [])) (\<lambda>i.
     bind (py_get openapi_spec ''servers'' (PList [])) (\<lambda>sv.
     bind (py_get openapi_spec ''paths'' (PDict [])) (\<lambda>p.
     bind (py_get openapi_spec ''components'' (PDict [])) (\<lambda>c.
     bind (py_get openapi_spec ''security'' (PList [])) (\<lambda>sec.
       Inr \<lparr>spec = openapi_spec, info = i, servers = sv, paths = p,
            components = c, security = sec\<rparr>)))))"

subsection \<open>TypeScript interfaces\<close>

function get_typescript_type :: "(py \<Rightarrow> string) \<Rightarrow> py \<Rightarrow> error + string" where
  "get_typescript_type str_of schema =
     (case py_get schema ''type'' (PStr ''any'') of
        Inl e \<Rightarrow> Inl e
      | Inr schema_type \<Rightarrow>
          if schema_type = PStr ''string'' then
            (case py_get schema ''enum'' PNone of
               Inl e \<Rightarrow> Inl e
             | Inr enum_values \<Rightarrow>
                 if truthy enum_values then
                   (case py_iter enum_values of
                      Inl e \<Rightarrow> Inl e
                    | Inr vals \<Rightarrow>
                        Inr (join '' | ''
                              (map (\<lambda>val. [CHR 0x22] @ fstr str_of val @ [CHR 0x22]) vals)))
                 else Inr ''string'')
          else if schema_type = PStr ''integer'' \<or> schema_type = PStr ''number'' then
            Inr ''number''
          else if schema_type = PStr ''boolean'' then Inr ''boolean''
          else if schema_type = PStr ''array'' then
            (case py_get schema ''items'' (PDict []) of
               Inl e \<Rightarrow> Inl e
             | Inr items \<Rightarrow>
                 (case get_typescript_type str_of items of
                    Inl e \<Rightarrow> Inl e
                  | Inr item_type \<Rightarrow> Inr (item_type @ ''[]'')))
          else if schema_type = PStr ''object'' then Inr ''any''
          else Inr ''any'')"
  by pat_completeness auto
termination
proof (relation "measure (\<lambda>(str_of, schema). size schema)")
  show "wf (measure (\<lambda>(str_of, schema). size schema))" by simp
next
  fix str_of :: "py \<Rightarrow> string" and schema schema_type items :: py
  assume ty: "py_get schema ''type'' (PStr ''any'') = Inr schema_type"
    and arr: "schema_type = PStr ''array''"
    and it: "py_get schema ''items'' (PDict []) = Inr items"
  from ty obtain d where d: "schema = PDict d"
    by (cases schema) (simp_all add: py_get_def)
  have sub: "dict_get d k = Some v \<Longrightarrow> size v < size (PDict d)" for k v
  proof (induction d)
    case Nil
    then show ?case by simp
  next
    case (Cons a d)
    then show ?case by (cases a) (auto split: if_splits)
  qed
  have ne: "d \<noteq> []" using ty arr d by (auto simp: py_get_def)
  have "size items < size schema"
  proof (cases "dict_get d (PStr ''items'')")
    case None
    then have "items = PDict []" using it d by (simp add: py_get_def)
    then show ?thesis using ne d by (cases d) simp_all
  next
    case (Some v)
    then have "items = v" using it d by (simp add: py_get_def)
    then show ?thesis using sub[OF Some] d by simp
  qed
  then show "((str_of, items), (str_of, schema)) \<in> measure (\<lambda>(str_of, schema). size schema)"
    by simp
qed

text \<open>
  The loop of \<^verbatim>\<open>_generate_interface\<close> over \<^verbatim>\<open>properties.items()\<close>, appending to
  \<^verbatim>\<open>interface_lines\<close>.
\<close>

fun property_lines ::
    "(py \<Rightarrow> string) \<Rightarrow> py \<Rightarrow> dict \<Rightarrow> string list \<Rightarrow> error + string list" where
  "property_lines str_of required [] interface_lines = Inr interface_lines"
| "property_lines str_of required ((prop_name, prop_def) # rest) interface_lines =
     bind (get_typescript_type str_of prop_def) (\<lambda>prop_type.
     bind (py_in prop_name required) (\<lambda>is_required.
     bind (py_get prop_def ''description'' (PStr [])) (\<lambda>description.
       property_lines str_of required rest
         (interface_lines
          @ (if truthy description then [''  /** '' @ fstr str_of description @ '' */''] else [])
          @ [''  '' @ fstr str_of prop_name @ (if is_required then [] else ''?'')
             @ '': '' @ prop_type @ '';'']))))"

definition generate_interface :: "(py \<Rightarrow> string) \<Rightarrow> py \<Rightarrow> py \<Rightarrow> error + string" where
  "generate_interface str_of name schema =
     bind (py_get schema ''type'' PNone) (\<lambda>ty.
       if ty \<noteq> PStr ''object'' then Inr []
       else
         bind (py_get schema ''properties'' (PDict [])) (\<lambda>properties.
         bind (py_get schema ''required'' (PList [])) (\<lambda>required.
         bind (py_items properties) (\<lambda>items.
         bind (property_lines str_of required items
                 [''interface '' @ fstr str_of name @ '' {'']) (\<lambda>interface_lines.
           Inr (join [CHR 0x0A] (interface_lines @ [''}''])))))))"

fun schema_interfaces ::
    "(py \<Rightarrow> string) \<Rightarrow> dict \<Rightarrow> string list \<Rightarrow> error + string list" where
  "schema_interfaces str_of [] interfaces = Inr interfaces"
| "schema_interfaces str_of ((schema_name, schema_def) # rest) interfaces =
     bind (generate_interface str_of schema_name schema_def) (\<lambda>interface.
       if interface \<noteq> [] then schema_interfaces str_of rest (interfaces @ [interface])
       else schema_interfaces str_of rest interfaces)"

definition generate_typescript_interfaces ::
    "(py \<Rightarrow> string) \<Rightarrow> openapi_to_mcp \<Rightarrow> error + string" where
  "generate_typescript_interfaces str_of self =
     bind (py_get (components self) ''schemas'' (PDict [])) (\<lambda>schemas.
     bind (py_items schemas) (\<lambda>items.
     bind (schema_interfaces str_of items []) (\<lambda>interfaces.
       Inr (join [CHR 0x0A, CHR 0x0A] interfaces))))"

subsection \<open>Input schemas\<close>

text \<open>
  The entry \<^verbatim>\<open>_generate_input_schema\<close> stores for a path or query parameter: the type of
  the parameter's schema and the parameter's description.
\<close>

definition param_property :: "py \<Rightarrow> error + py" where
  "param_property param =
     bind (py_get param ''schema'' (PDict [(PStr ''type'', PStr ''string'')])) (\<lambda>param_schema.
     bind (py_get param_schema ''type'' (PStr ''string'')) (\<lambda>ty.
     bind (py_get param ''description'' (PStr [])) (\<lambda>description.
       Inr (PDict [(PStr ''type'', ty), (PStr ''description'', description)]))))"

text \<open>
  The two parameter loops, which differ in the location they select only. The state is
  \<^verbatim>\<open>schema['properties']\<close> and \<^verbatim>\<open>schema['required']\<close>.
\<close>

fun add_parameters ::
    "string \<Rightarrow> py list \<Rightarrow> dict \<times> py list \<Rightarrow> error + (dict \<times> py list)" where
  "add_parameters loc [] st = Inr st"
| "add_parameters loc (param # params) (props, req) =
     bind (py_get param ''in'' PNone) (\<lambda>place.
       if place = PStr loc then
         bind (param_property param) (\<lambda>entry.
         bind (py_index param ''name'') (\<lambda>name.
         bind (dict_set props name entry) (\<lambda>props'.
         bind (py_get param ''required'' (PBool False)) (\<lambda>required.
           if truthy required then add_parameters loc params (props', req @ [name])
           else add_parameters loc params (props', req)))))
       else add_parameters loc params (props, req))"

text \<open>
  The entry for a property of the request body. The source stores the five fields and
  then replaces the entry by its copy without the \<^verbatim>\<open>None\<close> values; the model stores the
  copy.
\<close>

definition body_property :: "py \<Rightarrow> error + py" where
  "body_property prop_def =
     bind (py_get prop_def ''type'' (PStr ''string'')) (\<lambda>ty.
     bind (py_get prop_def ''description'' (PStr [])) (\<lambda>description.
     bind (py_get prop_def ''enum'' PNone) (\<lambda>enum.
     bind (py_get prop_def ''minimum'' PNone) (\<lambda>minimum.
     bind (py_get prop_def ''maximum'' PNone) (\<lambda>maximum.
       Inr (PDict (filter (\<lambda>(k, v). v \<noteq> PNone)
              [(PStr ''type'', ty), (PStr ''description'', description),
               (PStr ''enum'', enum), (PStr ''minimum'', minimum),
               (PStr ''maximum'', maximum)])))))))"

fun add_body_properties :: "dict \<Rightarrow> dict \<Rightarrow> error + dict" where
  "add_body_properties [] props = Inr props"
| "add_body_properties ((prop_name, prop_def) # rest) props =
     bind (body_property prop_def) (\<lambda>entry.
     bind (dict_set props prop_name entry) (\<lambda>props'.
       add_body_properties rest props'))"

text \<open>
  The body schema of a request body: the \<^verbatim>\<open>application/json\<close> schema, with a
  \<^verbatim>\<open>$ref\<close> into \<^verbatim>\<open>#/components/schemas/\<close> replaced by the schema it names.
\<close>

definition resolve_body_schema :: "openapi_to_mcp \<Rightarrow> py \<Rightarrow> error + py" where
  "resolve_body_schema self request_body =
     bind (py_get request_body ''content'' (PDict [])) (\<lambda>content.
     bind (py_get content ''application/json'' (PDict [])) (\<lambda>json_content.
     bind (py_get json_content ''schema'' (PDict [])) (\<lambda>body_schema.
     bind (py_in (PStr ''$ref'') body_schema) (\<lambda>has_ref.
       if has_ref then
         bind (py_index body_schema ''$ref'') (\<lambda>ref_path.
           case ref_path of
             PStr r \<Rightarrow>
               if startswith r ''#/components/schemas/'' then
                 bind (py_get (components self) ''schemas'' (PDict [])) (\<lambda>schemas.
                   py_get schemas (last (split_on (CHR ''/'') r)) (PDict []))
               else Inr body_schema
           | _ \<Rightarrow> Inl AttributeError)
       else Inr body_schema))))"

fun add_request_body ::
    "openapi_to_mcp \<Rightarrow> py \<Rightarrow> dict \<times> py list \<Rightarrow> error + (dict \<times> py list)" where
  "add_request_body self operation (props, req) =
     bind (py_get operation ''requestBody'' PNone) (\<lambda>request_body.
       if truthy request_body then
         bind (resolve_body_schema self request_body) (\<lambda>body_schema.
         bind (py_get body_schema ''type'' PNone) (\<lambda>ty.
           if ty = PStr ''object'' then
             bind (py_get body_schema ''properties'' (PDict [])) (\<lambda>properties.
             bind (py_get body_schema ''required'' (PList [])) (\<lambda>required.
             bind (py_items properties) (\<lambda>items.
             bind (add_body_properties items props) (\<lambda>props'.
             bind (py_iter required) (\<lambda>names.
               Inr (props', req @ names))))))
           else Inr (props, req)))
       else Inr (props, req))"

definition generate_input_schema :: "openapi_to_mcp \<Rightarrow> py \<Rightarrow> error + py" where
  "generate_input_schema self operation =
     bind (py_get operation ''parameters'' (PList [])) (\<lambda>parameters.
     bind (py_iter parameters) (\<lambda>params.
     bind (add_parameters ''path'' params ([], [])) (\<lambda>st1.
     bind (add_parameters ''query'' params st1) (\<lambda>st2.
     bind (add_request_body self operation st2) (\<lambda>st3.
       Inr (PDict [(PStr ''type'', PStr ''object''),
                   (PStr ''properties'', PDict (fst st3)),
                   (PStr ''required'', PList (snd st3))]))))))"

subsection \<open>Tools\<close>

definition generate_tool :: "openapi_to_mcp \<Rightarrow> py \<Rightarrow> string \<Rightarrow> py \<Rightarrow> error + py" where
  "generate_tool self path method operation =
     bind (py_get operation ''operationId'' PNone) (\<lambda>declared.
     bind (if \<not> truthy declared then
             (case path of
                PStr p \<Rightarrow> Inr (PStr (generate_operation_id p method))
              | _ \<Rightarrow> Inl TypeError)
           else Inr declared) (\<lambda>operation_id.
     bind (py_get operation ''summary'' (PStr [])) (\<lambda>summary.
     bind (py_get operation ''description'' summary) (\<lambda>description.
     bind (generate_input_schema self operation) (\<lambda>input_schema.
     bind (py_get operation ''responses'' (PDict [])) (\<lambda>responses.
     bind (py_get operation ''requestBody'' PNone) (\<lambda>request_body.
       Inr (PDict [(PStr ''name'', operation_id),
                   (PStr ''method'', PStr method),
                   (PStr ''path'', path),
                   (PStr ''summary'', summary),
                   (PStr ''description'', description),
                   (PStr ''input_schema'', input_schema),
                   (PStr ''responses'', responses),
                   (PStr ''request_body'', request_body)]))))))))"

definition supported_methods :: "string list" where
  "supported_methods = [''get'', ''post'', ''put'', ''delete'', ''patch'']"

text \<open>The inner loop of \<^verbatim>\<open>generate_tools\<close>, over the items of one path item.\<close>

fun path_item_tools ::
    "openapi_to_mcp \<Rightarrow> py \<Rightarrow> dict \<Rightarrow> py list \<Rightarrow> error + py list" where
  "path_item_tools self path [] tools = Inr tools"
| "path_item_tools self path ((method, operation) # rest) tools =
     (case method of
        PStr m \<Rightarrow>
          if lower m \<in> set supported_methods then
            bind (generate_tool self path (upper m) operation) (\<lambda>tool.
              if truthy tool then path_item_tools self path rest (tools @ [tool])
              else path_item_tools self path rest tools)
          else path_item_tools self path rest tools
      | _ \<Rightarrow> Inl AttributeError)"

text \<open>The outer loop, over the items of \<^verbatim>\<open>self.paths\<close>.\<close>

fun paths_tools :: "openapi_to_mcp \<Rightarrow> dict \<Rightarrow> py list \<Rightarrow> error + py list" where
  "paths_tools self [] tools = Inr tools"
| "paths_tools self ((path, path_item) # rest) tools =
     bind (py_items path_item) (\<lambda>items.
     bind (path_item_tools self path items tools) (\<lambda>tools'.
       paths_tools self rest tools'))"

definition generate_tools :: "openapi_to_mcp \<Rightarrow> error + py list" where
  "generate_tools self = bind (py_items (paths self)) (\<lambda>items. paths_tools self items [])"

subsection \<open>Rendering\<close>

definition get_security_info :: "openapi_to_mcp \<Rightarrow> error + py" where
  "get_security_info self =
     bind (py_get (components self) ''securitySchemes'' (PDict [])) (\<lambda>security_schemes.
       Inr (PDict [(PStr ''schemes'', security_schemes),
                   (PStr ''requirements'', security self)]))"

text \<open>The loop of \<^verbatim>\<open>_generate_auth_headers\<close>: it returns at the first API-key scheme.\<close>

fun first_api_key_header :: "(py \<Rightarrow> string) \<Rightarrow> dict \<Rightarrow> error + string" where
  "first_api_key_header str_of [] = Inr []"
| "first_api_key_header str_of ((scheme_name, scheme) # rest) =
     bind (py_get scheme ''type'' PNone) (\<lambda>ty.
       if ty = PStr ''apiKey'' then
         bind (py_get scheme ''name'' (PStr ''X-API-Key'')) (\<lambda>header_name.
           Inr ([CHR 0x27] @ fstr str_of header_name @ [CHR 0x27] @ '': API_KEY,''))
       else first_api_key_header str_of rest)"

definition generate_auth_headers :: "(py \<Rightarrow> string) \<Rightarrow> py \<Rightarrow> error + string" where
  "generate_auth_headers str_of security_info =
     bind (py_get security_info ''schemes'' (PDict [])) (\<lambda>schemes.
     bind (py_items schemes) (\<lambda>items. first_api_key_header str_of items))"

text \<open>\<^verbatim>\<open>tool['method'].upper()\<close>: the tool has the key and a string under it, or it raises.\<close>

definition tool_method_upper :: "py \<Rightarrow> error + string" where
  "tool_method_upper tool =
     bind (py_index tool ''method'') (\<lambda>m.
       case m of PStr s \<Rightarrow> Inr (upper s) | _ \<Rightarrow> Inl AttributeError)"

definition generate_request_config :: "py \<Rightarrow> error + string" where
  "generate_request_config tool =
     bind (py_get tool ''request_body'' PNone) (\<lambda>request_body.
     bind (if truthy request_body then
             bind (tool_method_upper tool) (\<lambda>m.
               Inr (if m \<in> set [''POST'', ''PUT'', ''PATCH'']
                    then [''        data: args,''] else []))
           else Inr []) (\<lambda>config_parts.
       Inr (if config_parts \<noteq> [] then [CHR 0x0A] @ join [CHR 0x0A] config_parts else [])))"

section \<open>Reading documents and results\<close>

text \<open>
  Total readers, used to state what the generator returns: \<open>field\<close> is \<^verbatim>\<open>.get\<close> with
  the default also for a value that is no dictionary.
\<close>

definition field :: "py \<Rightarrow> string \<Rightarrow> py \<Rightarrow> py" where
  "field obj key dflt = (case py_get obj key dflt of Inr v \<Rightarrow> v | Inl e \<Rightarrow> dflt)"

definition is_dict :: "py \<Rightarrow> bool" where
  "is_dict v = (case v of PDict d \<Rightarrow> True | _ \<Rightarrow> False)"

definition is_str :: "py \<Rightarrow> bool" where
  "is_str v = (case v of PStr s \<Rightarrow> True | _ \<Rightarrow> False)"

text \<open>The parameters of an operation, and those at one location.\<close>

definition operation_parameters :: "py \<Rightarrow> py list" where
  "operation_parameters operation =
     (case py_iter (field operation ''parameters'' (PList [])) of
        Inr ps \<Rightarrow> ps
      | Inl e \<Rightarrow> [])"

definition parameters_at :: "string \<Rightarrow> py list \<Rightarrow> py list" where
  "parameters_at loc params = filter (\<lambda>p. field p ''in'' PNone = PStr loc) params"

definition param_name :: "py \<Rightarrow> py" where
  "param_name p = field p ''name'' PNone"

definition required_names :: "string \<Rightarrow> py list \<Rightarrow> py list" where
  "required_names loc params =
     map param_name
       (filter (\<lambda>p. truthy (field p ''required'' (PBool False))) (parameters_at loc params))"

text \<open>The last parameter at a location whose name is the key \<open>k\<close>.\<close>

definition last_param_named :: "string \<Rightarrow> py list \<Rightarrow> py \<Rightarrow> py option" where
  "last_param_named loc params k =
     find (\<lambda>p. key_eq (param_name p) k) (rev (parameters_at loc params))"

text \<open>
  The body schema that contributes to the input schema: the resolved schema of a request
  body that is there (truthy), when its type is \<^verbatim>\<open>object\<close>.
\<close>

definition body_object :: "openapi_to_mcp \<Rightarrow> py \<Rightarrow> py option" where
  "body_object self operation =
     (let request_body = field operation ''requestBody'' PNone in
      if truthy request_body then
        (case resolve_body_schema self request_body of
           Inr body_schema \<Rightarrow>
             if field body_schema ''type'' PNone = PStr ''object'' then Some body_schema else None
         | Inl e \<Rightarrow> None)
      else None)"

definition body_properties :: "openapi_to_mcp \<Rightarrow> py \<Rightarrow> dict" where
  "body_properties self operation =
     (case body_object self operation of
        Some body_schema \<Rightarrow>
          (case field body_schema ''properties'' (PDict []) of PDict ps \<Rightarrow> ps | _ \<Rightarrow> [])
      | None \<Rightarrow> [])"

definition body_required :: "openapi_to_mcp \<Rightarrow> py \<Rightarrow> py list" where
  "body_required self operation =
     (case body_object self operation of
        Some body_schema \<Rightarrow>
          (case py_iter (field body_schema ''required'' (PList [])) of
             Inr names \<Rightarrow> names
           | Inl e \<Rightarrow> [])
      | None \<Rightarrow> [])"

definition last_body_property :: "openapi_to_mcp \<Rightarrow> py \<Rightarrow> py \<Rightarrow> py option" where
  "last_body_property self operation k =
     map_option snd (find (\<lambda>(n, d). key_eq n k) (rev (body_properties self operation)))"

text \<open>The operations \<^verbatim>\<open>generate_tools\<close> turns into tools, in document order.\<close>

definition supported_operations :: "dict \<Rightarrow> (py \<times> py \<times> py) list" where
  "supported_operations path_items =
     concat (map (\<lambda>(path, path_item).
               map (\<lambda>(method, operation). (path, method, operation))
                 (filter (\<lambda>(method, operation).
                            case method of PStr m \<Rightarrow> lower m \<in> set supported_methods
                                         | _ \<Rightarrow> False)
                    (case path_item of PDict items \<Rightarrow> items | _ \<Rightarrow> [])))
             path_items)"

definition is_api_key_scheme :: "py \<times> py \<Rightarrow> bool" where
  "is_api_key_scheme entry = (field (snd entry) ''type'' PNone = PStr ''apiKey'')"

text \<open>A generator over a document with nothing but the given component registry.\<close>

definition generator_with :: "dict \<Rightarrow> openapi_to_mcp" where
  "generator_with comps =
     \<lparr>spec = PDict [(PStr ''components'', PDict comps)], info = PDict [], servers = PList [],
      paths = PDict [], components = PDict comps, security = PList []\<rparr>"

text \<open>A schema, a request body and parameters to run the generator on.\<close>

definition pet_schema :: py where
  "pet_schema =
     PDict [(PStr ''type'', PStr ''object''),
            (PStr ''properties'',
               PDict [(PStr ''id'', PDict [(PStr ''type'', PStr ''integer'')]),
                      (PStr ''tag'', PDict [(PStr ''type'', PStr ''string''),
                                            (PStr ''description'', PStr ''a tag''),
                                            (PStr ''enum'', PList [PStr ''a'', PStr ''b''])])]),
            (PStr ''required'', PList [PStr ''id''])]"

definition json_body :: "py \<Rightarrow> py" where
  "json_body schema =
     PDict [(PStr ''content'',
               PDict [(PStr ''application/json'', PDict [(PStr ''schema'', schema)])])]"

definition id_parameters :: py where
  "id_parameters =
     PList [PDict [(PStr ''in'', PStr ''path''), (PStr ''name'', PStr ''id''),
                   (PStr ''required'', PBool True)],
            PDict [(PStr ''in'', PStr ''query''), (PStr ''name'', PStr ''id''),
                   (PStr ''description'', PStr ''q'')],
            PDict [(PStr ''in'', PStr ''header''), (PStr ''name'', PStr ''X-Trace'')]]"

section \<open>Errors, keys and dictionaries\<close>

lemma bind_Inr [simp]: "bind (Inr x) f = f x"
  by (simp add: bind_def)

lemma bind_Inl [simp]: "bind (Inl e) f = Inl e"
  by (simp add: bind_def)

lemma bind_eq_Inr: "bind m f = Inr y \<longleftrightarrow> (\<exists>x. m = Inr x \<and> f x = Inr y)"
  by (cases m) simp_all

lemma key_eq_refl: "hashable k \<Longrightarrow> key_eq k k"
  by (simp add: key_eq_def)

lemma key_eq_sym: "key_eq a b \<Longrightarrow> key_eq b a"
  by (simp add: key_eq_def)

lemma key_eq_trans: "key_eq a b \<Longrightarrow> key_eq b c \<Longrightarrow> key_eq a c"
  by (simp add: key_eq_def)

lemma key_eq_PStr [simp]: "key_eq k (PStr s) \<longleftrightarrow> k = PStr s"
  by (cases k) (auto simp: key_eq_def)

lemma key_eq_PStr_left [simp]: "key_eq (PStr s) k \<longleftrightarrow> k = PStr s"
  by (cases k) (auto simp: key_eq_def)

lemma dict_get_dict_put:
  assumes "hashable k"
  shows "dict_get (dict_put d k v) k' = (if key_eq k k' then Some v else dict_get d k')"
proof (induction d)
  case Nil
  then show ?case by simp
next
  case (Cons a d)
  obtain k0 v0 where a: "a = (k0, v0)" by (cases a)
  show ?case
  proof (cases "key_eq k0 k")
    case True
    then have "key_eq k0 k' \<longleftrightarrow> key_eq k k'"
      by (meson key_eq_sym key_eq_trans)
    then show ?thesis using True a by simp
  next
    case False
    then have "key_eq k0 k' \<Longrightarrow> \<not> key_eq k k'"
      by (meson key_eq_sym key_eq_trans)
    then show ?thesis using False a Cons.IH by auto
  qed
qed

lemma dict_set_eq_Inr: "dict_set d k v = Inr d' \<longleftrightarrow> hashable k \<and> d' = dict_put d k v"
  by (auto simp: dict_set_def)

lemma py_get_PDict [simp]:
  "py_get (PDict d) key dflt = Inr (case dict_get d (PStr key) of Some v \<Rightarrow> v | None \<Rightarrow> dflt)"
  by (simp add: py_get_def)

lemma py_get_eq_Inr:
  "py_get obj key dflt = Inr v \<longleftrightarrow>
     (\<exists>d. obj = PDict d \<and> v = (case dict_get d (PStr key) of Some x \<Rightarrow> x | None \<Rightarrow> dflt))"
  by (cases obj) (auto simp: py_get_def)

lemma py_get_field: "py_get obj key dflt = Inr v \<Longrightarrow> field obj key dflt = v"
  by (simp add: field_def)

lemma field_PDict [simp]:
  "field (PDict d) key dflt = (case dict_get d (PStr key) of Some v \<Rightarrow> v | None \<Rightarrow> dflt)"
  by (simp add: field_def)

lemma py_items_eq_Inr: "py_items obj = Inr d \<longleftrightarrow> obj = PDict d"
  by (cases obj) (auto simp: py_items_def)

lemma is_dict_iff: "is_dict v \<longleftrightarrow> (\<exists>d. v = PDict d)"
  by (cases v) (simp_all add: is_dict_def)

lemma find_append:
  "find P (xs @ ys) = (case find P xs of Some x \<Rightarrow> Some x | None \<Rightarrow> find P ys)"
  by (induction xs) auto

section \<open>Operation names: what the synthesizer returns\<close>

lemma strip_params_plain:
  "CHR ''{'' \<notin> set s \<Longrightarrow> strip_params (s @ r) = s @ strip_params r"
  by (induction s) auto

lemma strip_params_braces:
  assumes "n \<noteq> []" and "CHR ''}'' \<notin> set n"
  shows "strip_params (CHR ''{'' # n @ CHR ''}'' # r) = strip_params r"
proof -
  have t: "takeWhile (\<lambda>x. x \<noteq> CHR ''}'') (n @ CHR ''}'' # r) = n"
    using assms(2) by (induction n) auto
  have d: "dropWhile (\<lambda>x. x \<noteq> CHR ''}'') (n @ CHR ''}'' # r) = CHR ''}'' # r"
    using assms(2) by (induction n) auto
  show ?thesis using assms(1) by (simp add: t d)
qed

lemma param_segment_shape:
  assumes "is_param_segment s"
  obtains n where "s = CHR ''{'' # n @ [CHR ''}'']" and "n \<noteq> []" and "CHR ''}'' \<notin> set n"
proof -
  from assms have len: "3 \<le> length s" and h: "hd s = CHR ''{''" and l: "last s = CHR ''}''"
    and nb: "CHR ''}'' \<notin> set (butlast (tl s))"
    by (auto simp: is_param_segment_def)
  from len obtain c t where s: "s = c # t" and t: "2 \<le> length t" by (cases s) auto
  then have tne: "t \<noteq> []" by auto
  then have t2: "t = butlast t @ [last t]" by simp
  have lt: "last t = CHR ''}''" using l s tne by simp
  have bne: "butlast t \<noteq> []" using t by (cases t rule: rev_cases) auto
  have c: "c = CHR ''{''" using h s by simp
  have "s = CHR ''{'' # butlast t @ [CHR ''}'']" using s c t2 lt by simp
  moreover have "CHR ''}'' \<notin> set (butlast t)" using nb s by simp
  ultimately show ?thesis using that bne by blast
qed

lemma split_on_segment:
  assumes "sep \<notin> set s" and "r = [] \<or> hd r = sep"
  shows "filter (\<lambda>p. p \<noteq> []) (split_on sep (s @ r)) =
         (if s \<noteq> [] then [s] else []) @ filter (\<lambda>p. p \<noteq> []) (split_on sep r)"
  using assms
proof (induction s)
  case Nil
  then show ?case by simp
next
  case (Cons c s)
  then have c: "c \<noteq> sep" and s: "sep \<notin> set s" by auto
  show ?case
  proof (cases r)
    case Nil
    have "split_on sep s = [s]" using s by (induction s) auto
    then show ?thesis using Nil c by simp
  next
    case (Cons a r')
    with Cons.prems have a: "a = sep" by simp
    have "split_on sep (s @ sep # r') = s # split_on sep r'" using s by (induction s) auto
    then show ?thesis using Cons a c by simp
  qed
qed

lemma parts_of_segments:
  assumes "\<forall>s \<in> set segs. is_param_segment s \<or> is_plain_segment s"
  shows "filter (\<lambda>p. p \<noteq> []) (split_on (CHR ''/'') (strip_params (path_of segs))) =
         remaining_segments segs"
  using assms
proof (induction segs)
  case Nil
  then show ?case by (simp add: path_of_def remaining_segments_def)
next
  case (Cons s segs)
  let ?R = "strip_params (path_of segs)"
  have R: "?R = [] \<or> hd ?R = CHR ''/''"
    by (cases segs) (simp_all add: path_of_def)
  have IH: "filter (\<lambda>p. p \<noteq> []) (split_on (CHR ''/'') ?R) = remaining_segments segs"
    using Cons by simp
  have sl: "filter (\<lambda>p. p \<noteq> []) (split_on (CHR ''/'') (CHR ''/'' # x)) =
            filter (\<lambda>p. p \<noteq> []) (split_on (CHR ''/'') x)" for x
    by simp
  show ?case
  proof (cases "is_param_segment s")
    case True
    then obtain n where s: "s = CHR ''{'' # n @ [CHR ''}'']" and n: "n \<noteq> []" "CHR ''}'' \<notin> set n"
      by (rule param_segment_shape)
    have "strip_params (path_of (s # segs)) = CHR ''/'' # ?R"
      using strip_params_braces[OF n, of "path_of segs"] by (simp add: path_of_def s)
    then show ?thesis using IH True by (simp add: remaining_segments_def)
  next
    case False
    with Cons.prems have p: "is_plain_segment s" by simp
    then have "strip_params (path_of (s # segs)) = CHR ''/'' # s @ ?R"
      using strip_params_plain[of s "path_of segs"] by (simp add: path_of_def is_plain_segment_def)
    moreover have "filter (\<lambda>p. p \<noteq> []) (split_on (CHR ''/'') (s @ ?R)) =
         (if s \<noteq> [] then [s] else []) @ filter (\<lambda>p. p \<noteq> []) (split_on (CHR ''/'') ?R)"
      using p R by (intro split_on_segment) (auto simp: is_plain_segment_def)
    ultimately have "filter (\<lambda>p. p \<noteq> []) (split_on (CHR ''/'') (strip_params (path_of (s # segs)))) =
         (if s \<noteq> [] then [s] else []) @ filter (\<lambda>p. p \<noteq> []) (split_on (CHR ''/'') ?R)"
      by (simp only: sl)
    then show ?thesis using IH False by (simp add: remaining_segments_def del: split_on.simps)
  qed
qed

lemma capitalize_hd_tl:
  "s \<noteq> [] \<Longrightarrow> capitalize s = upper_char (hd s) # map lower_char (tl s)"
  by (cases s) simp_all

text \<open>
  Claim C4, as the code has it, for a path and a method of ASCII characters. When a part
  of the path remains after the parameters are stripped, the synthesized name is the verb
  prefix followed by every remaining part with its first character in upper case and all
  its other characters in lower case: the rest of a segment is not kept as written. For a
  path made of parameter segments and plain segments the remaining parts are the plain
  segments that are not empty.
\<close>

theorem operation_id_capitalizes_segments:
  assumes "\<forall>s \<in> set segs. is_param_segment s \<or> is_plain_segment s"
    and "remaining_segments segs \<noteq> []"
    and "filter (\<lambda>part. part \<noteq> []) (split_on (CHR ''/'') (strip_params path)) = parts"
    and "parts \<noteq> []"
    and "isascii (path_of segs)" and "isascii path" and "isascii method"
  shows "generate_operation_id (path_of segs) method =
         verb_prefix (path_of segs) method
         @ concat (map (\<lambda>s. upper_char (hd s) # map lower_char (tl s)) (remaining_segments segs))
       \<and> generate_operation_id path method =
         verb_prefix path method
         @ concat (map (\<lambda>s. upper_char (hd s) # map lower_char (tl s)) parts)"
proof -
  have parts: "filter (\<lambda>p. p \<noteq> []) (split_on (CHR ''/'') (strip_params (path_of segs))) =
               remaining_segments segs"
    using assms(1) by (rule parts_of_segments)
  have cap: "map capitalize (remaining_segments segs) =
        map (\<lambda>s. upper_char (hd s) # map lower_char (tl s)) (remaining_segments segs)"
    by (rule map_cong) (auto simp: remaining_segments_def capitalize_hd_tl)
  have "generate_operation_id (path_of segs) method =
        verb_prefix (path_of segs) method @ concat (map capitalize (remaining_segments segs))"
    using assms(2) by (simp add: generate_operation_id_def parts Let_def)
  then have first: "generate_operation_id (path_of segs) method =
         verb_prefix (path_of segs) method
         @ concat (map (\<lambda>s. upper_char (hd s) # map lower_char (tl s)) (remaining_segments segs))"
    by (simp only: cap)
  have "\<forall>s \<in> set parts. s \<noteq> []" using assms(3) by auto
  then have cap2: "map capitalize parts =
        map (\<lambda>s. upper_char (hd s) # map lower_char (tl s)) parts"
    by (intro map_cong) (auto simp: capitalize_hd_tl)
  have "generate_operation_id path method =
        verb_prefix path method @ concat (map capitalize parts)"
    using assms(3) assms(4) by (simp add: generate_operation_id_def Let_def)
  then have second: "generate_operation_id path method =
         verb_prefix path method
         @ concat (map (\<lambda>s. upper_char (hd s) # map lower_char (tl s)) parts)"
    by (simp only: cap2)
  from first second show ?thesis by (rule conjI)
qed

theorem operation_id_capitalizes_segments_witness:
  "generate_operation_id (path_of [''userAccounts'', ''{id}'', ''openOrders'']) ''GET'' =
     ''getUseraccountsOpenorders''
   \<and> generate_operation_id ''/v1/{tenant}-data/createItem'' ''POST'' = ''createV1-dataCreateitem''"
proof -
  have h1: "\<forall>s \<in> set [''userAccounts'', ''{id}'', ''openOrders''].
              is_param_segment s \<or> is_plain_segment s"
    by code_simp
  have h2: "remaining_segments [''userAccounts'', ''{id}'', ''openOrders''] \<noteq> []"
    by code_simp
  have h3: "filter (\<lambda>part. part \<noteq> [])
              (split_on (CHR ''/'') (strip_params ''/v1/{tenant}-data/createItem'')) =
            [''v1'', ''-data'', ''createItem'']"
    by code_simp
  have h4: "[''v1'', ''-data'', ''createItem''] \<noteq> ([] :: string list)"
    by simp
  have e1: "verb_prefix (path_of [''userAccounts'', ''{id}'', ''openOrders'']) ''GET''
         @ concat (map (\<lambda>s. upper_char (hd s) # map lower_char (tl s))
             (remaining_segments [''userAccounts'', ''{id}'', ''openOrders''])) =
           ''getUseraccountsOpenorders''"
    by code_simp
  have e2: "verb_prefix ''/v1/{tenant}-data/createItem'' ''POST''
         @ concat (map (\<lambda>s. upper_char (hd s) # map lower_char (tl s))
             [''v1'', ''-data'', ''createItem'']) =
           ''createV1-dataCreateitem''"
    by code_simp
  have h5: "isascii (path_of [''userAccounts'', ''{id}'', ''openOrders''])"
    by code_simp
  have h6: "isascii ''/v1/{tenant}-data/createItem''"
    by code_simp
  have h7: "isascii ''GET''" and h8: "isascii ''POST''"
    by code_simp+
  note t1 = operation_id_capitalizes_segments[OF h1 h2 h3 h4 h5 h6 h7, THEN conjunct1]
  note t2 = operation_id_capitalizes_segments[OF h1 h2 h3 h4 h5 h6 h8, THEN conjunct2]
  show ?thesis
    by (rule conjI) (rule trans[OF t1 e1], rule trans[OF t2 e2])
qed

theorem operation_id_rest_unchanged_counterexample:
  "generate_operation_id ''/userAccounts'' ''GET'' = ''getUseraccounts''
   \<and> generate_operation_id ''/userAccounts'' ''GET'' \<noteq> ''get'' @ ''UserAccounts''"
  by code_simp

text \<open>
  Claim C9. \<^verbatim>\<open>/users/{id}\<close> with GET gives \<^verbatim>\<open>getUsers\<close>, \<^verbatim>\<open>/items\<close> with POST gives
  \<^verbatim>\<open>postItems\<close>, and a path whose segments are all parameter segments gives the verb
  prefix followed by \<^verbatim>\<open>Root\<close>, whatever the method.
\<close>

theorem operation_id_scenarios:
  assumes "\<forall>s \<in> set segs. is_param_segment s"
  shows "generate_operation_id ''/users/{id}'' ''GET'' = ''getUsers''
       \<and> generate_operation_id ''/items'' ''POST'' = ''postItems''
       \<and> generate_operation_id (path_of segs) method = verb_prefix (path_of segs) method @ ''Root''"
proof -
  have a: "generate_operation_id ''/users/{id}'' ''GET'' = ''getUsers''" by code_simp
  have b: "generate_operation_id ''/items'' ''POST'' = ''postItems''" by code_simp
  have "\<forall>s \<in> set segs. is_param_segment s \<or> is_plain_segment s" using assms by blast
  then have "filter (\<lambda>p. p \<noteq> []) (split_on (CHR ''/'') (strip_params (path_of segs))) =
             remaining_segments segs"
    by (rule parts_of_segments)
  moreover have "remaining_segments segs = []"
    using assms by (simp add: remaining_segments_def)
  ultimately have c: "generate_operation_id (path_of segs) method =
                      verb_prefix (path_of segs) method @ ''Root''"
    by (simp add: generate_operation_id_def Let_def)
  from a b c show ?thesis by blast
qed

theorem operation_id_scenarios_witness:
  "generate_operation_id (path_of [''{org}'', ''{id}'']) ''PATCH'' = ''patchRoot''
   \<and> path_of [''{org}'', ''{id}''] = ''/{org}/{id}''"
proof -
  have h: "\<forall>s \<in> set [''{org}'', ''{id}'']. is_param_segment s" by code_simp
  have e: "verb_prefix (path_of [''{org}'', ''{id}'']) ''PATCH'' @ ''Root'' = ''patchRoot''"
    by code_simp
  have p: "path_of [''{org}'', ''{id}''] = ''/{org}/{id}''" by code_simp
  from operation_id_scenarios[OF h, of "''PATCH''"]
  have "generate_operation_id (path_of [''{org}'', ''{id}'']) ''PATCH'' =
        verb_prefix (path_of [''{org}'', ''{id}'']) ''PATCH'' @ ''Root''"
    by (elim conjE)
  then show ?thesis using e p by (simp only:)
qed

section \<open>The shape of an input schema\<close>

lemma generate_input_schema_shape:
  assumes "generate_input_schema self operation = Inr s"
  obtains props req where
    "s = PDict [(PStr ''type'', PStr ''object''), (PStr ''properties'', PDict props),
                (PStr ''required'', PList req)]"
  using assms unfolding generate_input_schema_def bind_eq_Inr by blast

text \<open>
  Claim C10. Whenever the synthesizer returns, the input schema is a mapping with the
  three keys \<^verbatim>\<open>type\<close>, \<^verbatim>\<open>properties\<close> and \<^verbatim>\<open>required\<close> and no other, and its type
  is \<^verbatim>\<open>object\<close>. For an operation with neither parameters nor a request body it does
  return, with the empty mapping and the empty list under the last two keys.
\<close>

theorem input_schema_three_keys:
  shows "(generate_input_schema self operation = Inr s \<longrightarrow>
            (\<exists>props req.
               s = PDict [(PStr ''type'', PStr ''object''), (PStr ''properties'', PDict props),
                          (PStr ''required'', PList req)]))
       \<and> (dict_get d (PStr ''parameters'') = None \<and> dict_get d (PStr ''requestBody'') = None \<longrightarrow>
            generate_input_schema self (PDict d) =
              Inr (PDict [(PStr ''type'', PStr ''object''), (PStr ''properties'', PDict []),
                          (PStr ''required'', PList [])]))"
proof (intro conjI impI)
  assume "generate_input_schema self operation = Inr s"
  then show "\<exists>props req.
               s = PDict [(PStr ''type'', PStr ''object''), (PStr ''properties'', PDict props),
                          (PStr ''required'', PList req)]"
    by (rule generate_input_schema_shape) blast
next
  assume "dict_get d (PStr ''parameters'') = None \<and> dict_get d (PStr ''requestBody'') = None"
  then show "generate_input_schema self (PDict d) =
              Inr (PDict [(PStr ''type'', PStr ''object''), (PStr ''properties'', PDict []),
                          (PStr ''required'', PList [])])"
    by (simp add: generate_input_schema_def py_iter_def)
qed

theorem input_schema_three_keys_witness:
  "generate_input_schema (generator_with []) (PDict [(PStr ''summary'', PStr ''ping'')]) =
     Inr (PDict [(PStr ''type'', PStr ''object''), (PStr ''properties'', PDict []),
                 (PStr ''required'', PList [])])
   \<and> (\<exists>props req.
        PDict [(PStr ''type'', PStr ''object''),
               (PStr ''properties'',
                  PDict [(PStr ''id'', PDict [(PStr ''type'', PStr ''string''),
                                              (PStr ''description'', PStr ''q'')])]),
               (PStr ''required'', PList [PStr ''id''])] =
        PDict [(PStr ''type'', PStr ''object''), (PStr ''properties'', PDict props),
               (PStr ''required'', PList req)])"
proof -
  have h: "dict_get [(PStr ''summary'', PStr ''ping'')] (PStr ''parameters'') = None
         \<and> dict_get [(PStr ''summary'', PStr ''ping'')] (PStr ''requestBody'') = None"
    by code_simp
  have r: "generate_input_schema (generator_with []) (PDict [(PStr ''parameters'', id_parameters)]) =
           Inr (PDict [(PStr ''type'', PStr ''object''),
               (PStr ''properties'',
                  PDict [(PStr ''id'', PDict [(PStr ''type'', PStr ''string''),
                                              (PStr ''description'', PStr ''q'')])]),
               (PStr ''required'', PList [PStr ''id''])])"
    by code_simp
  note t = input_schema_three_keys[where d = "[(PStr ''summary'', PStr ''ping'')]"
      and self = "generator_with []"
      and operation = "PDict [(PStr ''parameters'', id_parameters)]"]
  from t h r show ?thesis by blast
qed

section \<open>The request configuration of a tool\<close>

lemma generate_tool_fields:
  assumes "generate_tool self path method operation = Inr tool"
  obtains fields where "tool = PDict fields"
    and "dict_get fields (PStr ''method'') = Some (PStr method)"
    and "dict_get fields (PStr ''path'') = Some path"
    and "dict_get fields (PStr ''request_body'') = Some (field operation ''requestBody'' PNone)"
proof -
  from assms obtain declared operation_id summary description input_schema responses request_body
    where rb: "py_get operation ''requestBody'' PNone = Inr request_body"
      and tool: "tool = PDict [(PStr ''name'', operation_id),
                   (PStr ''method'', PStr method),
                   (PStr ''path'', path),
                   (PStr ''summary'', summary),
                   (PStr ''description'', description),
                   (PStr ''input_schema'', input_schema),
                   (PStr ''responses'', responses),
                   (PStr ''request_body'', request_body)]"
    unfolding generate_tool_def bind_eq_Inr by blast
  have "field operation ''requestBody'' PNone = request_body"
    using rb by (rule py_get_field)
  then show ?thesis using tool that by simp
qed

text \<open>
  Claim C5, as the code has it. For a tool built from an operation, the request
  configuration is the line \<^verbatim>\<open>data: args,\<close> (behind a line break) exactly when the
  operation's \<^verbatim>\<open>requestBody\<close> is truthy (there, and not null nor an empty object) and the
  method in upper case is POST, PUT or PATCH; otherwise it is the empty string. So GET and
  DELETE never carry the arguments as a body.
\<close>

theorem request_config_data_binding:
  assumes "generate_tool self path method operation = Inr tool"
  shows "generate_request_config tool =
           Inr (if truthy (field operation ''requestBody'' PNone)
                   \<and> upper method \<in> set [''POST'', ''PUT'', ''PATCH'']
                then CHR 0x0A # ''        data: args,'' else [])
       \<and> (upper method \<in> set [''GET'', ''DELETE''] \<longrightarrow> generate_request_config tool = Inr [])"
proof -
  from assms obtain fields where tool: "tool = PDict fields"
    and m: "dict_get fields (PStr ''method'') = Some (PStr method)"
    and rb: "dict_get fields (PStr ''request_body'') = Some (field operation ''requestBody'' PNone)"
    by (rule generate_tool_fields)
  have main: "generate_request_config tool =
           Inr (if truthy (field operation ''requestBody'' PNone)
                   \<and> upper method \<in> set [''POST'', ''PUT'', ''PATCH'']
                then CHR 0x0A # ''        data: args,'' else [])"
    by (simp add: generate_request_config_def tool_method_upper_def py_index_def tool m rb)
  moreover have "upper method \<in> set [''GET'', ''DELETE''] \<Longrightarrow>
                 upper method \<notin> set [''POST'', ''PUT'', ''PATCH'']"
    by auto
  ultimately show ?thesis by simp
qed

theorem request_config_data_binding_witness:
  "bind (generate_tool (generator_with []) (PStr ''/pets'') ''POST''
           (PDict [(PStr ''requestBody'', json_body pet_schema)])) generate_request_config =
     Inr (CHR 0x0A # ''        data: args,'')
   \<and> bind (generate_tool (generator_with []) (PStr ''/pets'') ''DELETE''
           (PDict [(PStr ''requestBody'', json_body pet_schema)])) generate_request_config =
     Inr []"
proof -
  let ?op = "PDict [(PStr ''requestBody'', json_body pet_schema)]"
  obtain t1 where t1: "generate_tool (generator_with []) (PStr ''/pets'') ''POST'' ?op = Inr t1"
    by (simp add: generate_tool_def generate_input_schema_def
        resolve_body_schema_def json_body_def pet_schema_def py_in_def py_iter_def
        py_items_def body_property_def dict_set_def)
  obtain t2 where t2: "generate_tool (generator_with []) (PStr ''/pets'') ''DELETE'' ?op = Inr t2"
    by (simp add: generate_tool_def generate_input_schema_def
        resolve_body_schema_def json_body_def pet_schema_def py_in_def py_iter_def
        py_items_def body_property_def dict_set_def)
  have c1: "truthy (field ?op ''requestBody'' PNone) \<and> upper ''POST'' \<in> set [''POST'', ''PUT'', ''PATCH'']"
    by code_simp
  have c2: "upper ''DELETE'' \<in> set [''GET'', ''DELETE'']"
    by code_simp
  from request_config_data_binding[OF t1] c1
  have "generate_request_config t1 = Inr (CHR 0x0A # ''        data: args,'')"
    by simp
  moreover from request_config_data_binding[OF t2] c2
  have "generate_request_config t2 = Inr []"
    by blast
  ultimately show ?thesis by (simp add: t1 t2)
qed

theorem request_config_empty_body_counterexample:
  "bind (generate_tool (generator_with []) (PStr ''/pets'') ''POST''
           (PDict [(PStr ''requestBody'', PDict [])])) generate_request_config = Inr []"
  by code_simp

section \<open>The authentication header\<close>

lemma first_api_key_header_filter:
  assumes "\<forall>entry \<in> set schemes. is_dict (snd entry)"
  shows "first_api_key_header str_of schemes =
           Inr (case filter is_api_key_scheme schemes of
                  [] \<Rightarrow> []
                | entry # others \<Rightarrow>
                    [CHR 0x27] @ fstr str_of (field (snd entry) ''name'' (PStr ''X-API-Key''))
                    @ [CHR 0x27] @ '': API_KEY,'')"
  using assms
proof (induction schemes)
  case Nil
  then show ?case by simp
next
  case (Cons a schemes)
  obtain n sch where a: "a = (n, sch)" by (cases a)
  with Cons.prems obtain d where d: "sch = PDict d" by (auto simp: is_dict_iff)
  show ?case
  proof (cases "is_api_key_scheme a")
    case True
    then show ?thesis using a d by (simp add: is_api_key_scheme_def)
  next
    case False
    then show ?thesis using a d Cons by (simp add: is_api_key_scheme_def)
  qed
qed

text \<open>
  Claim C8. With every security scheme an object: when some scheme has the type
  \<^verbatim>\<open>apiKey\<close>, the fragment is one header line, the name of the first such scheme in
  iteration order (\<^verbatim>\<open>X-API-Key\<close> when the scheme has no name) in quotes, bound to
  \<^verbatim>\<open>API_KEY\<close>; when none has, the fragment is the empty string.
\<close>

theorem auth_header_first_api_key:
  assumes "py_get (components self) ''securitySchemes'' (PDict []) = Inr (PDict schemes)"
    and "\<forall>entry \<in> set schemes. is_dict (snd entry)"
  shows "bind (get_security_info self) (generate_auth_headers str_of) =
           Inr (case filter is_api_key_scheme schemes of
                  [] \<Rightarrow> []
                | entry # others \<Rightarrow>
                    [CHR 0x27] @ fstr str_of (field (snd entry) ''name'' (PStr ''X-API-Key''))
                    @ [CHR 0x27] @ '': API_KEY,'')"
  using assms(1) first_api_key_header_filter[OF assms(2), of str_of]
  by (simp add: get_security_info_def generate_auth_headers_def py_items_def)

theorem auth_header_first_api_key_witness:
  "bind (get_security_info (generator_with [(PStr ''securitySchemes'',
           PDict [(PStr ''basic'', PDict [(PStr ''type'', PStr ''http'')]),
                  (PStr ''key'', PDict [(PStr ''type'', PStr ''apiKey''),
                                        (PStr ''name'', PStr ''X-Api-Key'')]),
                  (PStr ''other'', PDict [(PStr ''type'', PStr ''apiKey''),
                                          (PStr ''name'', PStr ''X-Other'')])])]))
     (generate_auth_headers (\<lambda>v. ''?'')) = Inr (CHR 0x27 # ''X-Api-Key'' @ [CHR 0x27] @ '': API_KEY,'')
   \<and> bind (get_security_info (generator_with [(PStr ''securitySchemes'',
           PDict [(PStr ''basic'', PDict [(PStr ''type'', PStr ''http'')])])]))
     (generate_auth_headers (\<lambda>v. ''?'')) = Inr []"
proof -
  let ?s1 = "[(PStr ''basic'', PDict [(PStr ''type'', PStr ''http'')]),
              (PStr ''key'', PDict [(PStr ''type'', PStr ''apiKey''),
                                    (PStr ''name'', PStr ''X-Api-Key'')]),
              (PStr ''other'', PDict [(PStr ''type'', PStr ''apiKey''),
                                      (PStr ''name'', PStr ''X-Other'')])]"
  let ?s2 = "[(PStr ''basic'', PDict [(PStr ''type'', PStr ''http'')])]"
  have g1: "py_get (components (generator_with [(PStr ''securitySchemes'', PDict ?s1)]))
              ''securitySchemes'' (PDict []) = Inr (PDict ?s1)"
    by (simp add: generator_with_def)
  have g2: "py_get (components (generator_with [(PStr ''securitySchemes'', PDict ?s2)]))
              ''securitySchemes'' (PDict []) = Inr (PDict ?s2)"
    by (simp add: generator_with_def)
  have d1: "\<forall>entry \<in> set ?s1. is_dict (snd entry)" by (simp add: is_dict_def)
  have d2: "\<forall>entry \<in> set ?s2. is_dict (snd entry)" by (simp add: is_dict_def)
  show ?thesis
    using auth_header_first_api_key[OF g1 d1, of "\<lambda>v. ''?''"]
      auth_header_first_api_key[OF g2 d2, of "\<lambda>v. ''?''"]
    by (simp add: is_api_key_scheme_def fstr_def)
qed

section \<open>The three steps of the input schema\<close>

lemma py_index_eq_Inr:
  "py_index obj key = Inr v \<longleftrightarrow> (\<exists>d. obj = PDict d \<and> dict_get d (PStr key) = Some v)"
  by (cases obj) (auto simp: py_index_def split: option.splits)

lemma py_index_param_name: "py_index p ''name'' = Inr n \<Longrightarrow> param_name p = n"
  by (auto simp: py_index_eq_Inr param_name_def)

lemma last_param_named_Cons:
  "last_param_named loc (p # params) k =
     (case last_param_named loc params k of
        Some q \<Rightarrow> Some q
      | None \<Rightarrow>
          if field p ''in'' PNone = PStr loc \<and> key_eq (param_name p) k then Some p else None)"
  by (simp add: last_param_named_def parameters_at_def find_append split: option.splits)

lemma required_names_Cons:
  "required_names loc (p # params) =
     (if field p ''in'' PNone = PStr loc \<and> truthy (field p ''required'' (PBool False))
      then [param_name p] else []) @ required_names loc params"
  by (simp add: required_names_def parameters_at_def)

text \<open>
  One parameter loop: the required names are appended in order, and under every key the
  entry is the one of the last parameter at the location with that name, or else what
  was there before.
\<close>

lemma add_parameters_result:
  assumes "add_parameters loc params (props, req) = Inr (props', req')"
  shows "req' = req @ required_names loc params
       \<and> (\<forall>k. map_option Inr (dict_get props' k) =
               (case last_param_named loc params k of
                  Some p \<Rightarrow> Some (param_property p)
                | None \<Rightarrow> map_option Inr (dict_get props k)))"
  using assms
proof (induction params arbitrary: props req)
  case Nil
  then show ?case by (simp add: required_names_def parameters_at_def last_param_named_def)
next
  case (Cons p params)
  from Cons.prems obtain place where place: "py_get p ''in'' PNone = Inr place"
    and rest: "(if place = PStr loc then
         bind (param_property p) (\<lambda>entry.
         bind (py_index p ''name'') (\<lambda>name.
         bind (dict_set props name entry) (\<lambda>props'.
         bind (py_get p ''required'' (PBool False)) (\<lambda>required.
           if truthy required then add_parameters loc params (props', req @ [name])
           else add_parameters loc params (props', req)))))
       else add_parameters loc params (props, req)) = Inr (props', req')"
    by (auto simp: bind_eq_Inr)
  have fplace: "field p ''in'' PNone = place" using place by (rule py_get_field)
  show ?case
  proof (cases "place = PStr loc")
    case False
    with rest have "add_parameters loc params (props, req) = Inr (props', req')" by simp
    from Cons.IH[OF this] show ?thesis
      using False fplace
      by (simp add: last_param_named_Cons required_names_Cons split: option.splits)
  next
    case True
    with rest obtain entry name props1 required where
      entry: "param_property p = Inr entry"
      and name: "py_index p ''name'' = Inr name"
      and set: "dict_set props name entry = Inr props1"
      and required: "py_get p ''required'' (PBool False) = Inr required"
      and rec: "add_parameters loc params
                  (props1, if truthy required then req @ [name] else req) = Inr (props', req')"
      by (auto simp: bind_eq_Inr split: if_splits)
    have pn: "param_name p = name" using name by (rule py_index_param_name)
    have fr: "field p ''required'' (PBool False) = required" using required by (rule py_get_field)
    from set have h: "hashable name" and p1: "props1 = dict_put props name entry"
      by (simp_all add: dict_set_eq_Inr)
    have look1: "dict_get props1 k = (if key_eq name k then Some entry else dict_get props k)" for k
      unfolding p1 using h by (rule dict_get_dict_put)
    note IH = Cons.IH[OF rec]
    note IHlook = IH[THEN conjunct2, rule_format]
    have req: "req' = req @ required_names loc (p # params)"
      using IH True fplace pn fr by (simp add: required_names_Cons)
    have look: "map_option Inr (dict_get props' k) =
               (case last_param_named loc (p # params) k of
                  Some q \<Rightarrow> Some (param_property q)
                | None \<Rightarrow> map_option Inr (dict_get props k))" for k
    proof (cases "last_param_named loc params k")
      case (Some q)
      then show ?thesis using IHlook[of k] by (simp add: last_param_named_Cons)
    next
      case None
      then show ?thesis
        using IHlook[of k] True fplace pn entry by (simp add: last_param_named_Cons look1)
    qed
    from req look show ?thesis by blast
  qed
qed

lemma add_body_properties_result:
  assumes "add_body_properties items props = Inr props'"
  shows "map_option Inr (dict_get props' k) =
           (case map_option snd (find (\<lambda>(n, d). key_eq n k) (rev items)) of
              Some d \<Rightarrow> Some (body_property d)
            | None \<Rightarrow> map_option Inr (dict_get props k))"
  using assms
proof (induction items arbitrary: props)
  case Nil
  then show ?case by simp
next
  case (Cons a items)
  obtain n d where a: "a = (n, d)" by (cases a)
  from Cons.prems a obtain entry props1 where
    entry: "body_property d = Inr entry"
    and set: "dict_set props n entry = Inr props1"
    and rec: "add_body_properties items props1 = Inr props'"
    by (auto simp: bind_eq_Inr)
  from set have h: "hashable n" and p1: "props1 = dict_put props n entry"
    by (simp_all add: dict_set_eq_Inr)
  have look1: "dict_get props1 k = (if key_eq n k then Some entry else dict_get props k)"
    unfolding p1 using h by (rule dict_get_dict_put)
  note IH = Cons.IH[OF rec]
  show ?case
  proof (cases "find (\<lambda>(n, d). key_eq n k) (rev items)")
    case (Some x)
    then show ?thesis using IH a by (simp add: find_append)
  next
    case None
    then show ?thesis using IH a entry by (simp add: find_append look1)
  qed
qed

text \<open>
  The request-body step: the properties of the body object overwrite what is there, and
  its required list is appended as it is.
\<close>

lemma add_request_body_result:
  assumes "add_request_body self operation (props, req) = Inr (props', req')"
  shows "req' = req @ body_required self operation
       \<and> (\<forall>k. map_option Inr (dict_get props' k) =
               (case last_body_property self operation k of
                  Some d \<Rightarrow> Some (body_property d)
                | None \<Rightarrow> map_option Inr (dict_get props k)))"
proof -
  from assms obtain rb where rb: "py_get operation ''requestBody'' PNone = Inr rb"
    and rest: "(if truthy rb then
         bind (resolve_body_schema self rb) (\<lambda>body_schema.
         bind (py_get body_schema ''type'' PNone) (\<lambda>ty.
           if ty = PStr ''object'' then
             bind (py_get body_schema ''properties'' (PDict [])) (\<lambda>properties.
             bind (py_get body_schema ''required'' (PList [])) (\<lambda>required.
             bind (py_items properties) (\<lambda>items.
             bind (add_body_properties items props) (\<lambda>props'.
             bind (py_iter required) (\<lambda>names.
               Inr (props', req @ names))))))
           else Inr (props, req)))
       else Inr (props, req)) = Inr (props', req')"
    by (auto simp: bind_eq_Inr)
  have frb: "field operation ''requestBody'' PNone = rb" using rb by (rule py_get_field)
  show ?thesis
  proof (cases "truthy rb")
    case False
    then have "body_object self operation = None" by (simp add: body_object_def frb)
    then show ?thesis
      using rest False by (simp add: body_required_def last_body_property_def body_properties_def)
  next
    case True
    with rest obtain b ty where b: "resolve_body_schema self rb = Inr b"
      and ty: "py_get b ''type'' PNone = Inr ty"
      and rest2: "(if ty = PStr ''object'' then
             bind (py_get b ''properties'' (PDict [])) (\<lambda>properties.
             bind (py_get b ''required'' (PList [])) (\<lambda>required.
             bind (py_items properties) (\<lambda>items.
             bind (add_body_properties items props) (\<lambda>props'.
             bind (py_iter required) (\<lambda>names.
               Inr (props', req @ names))))))
           else Inr (props, req)) = Inr (props', req')"
      by (auto simp: bind_eq_Inr)
    have fty: "field b ''type'' PNone = ty" using ty by (rule py_get_field)
    show ?thesis
    proof (cases "ty = PStr ''object''")
      case False
      then have "body_object self operation = None"
        using True b fty by (simp add: body_object_def frb)
      then show ?thesis
        using rest2 False
        by (simp add: body_required_def last_body_property_def body_properties_def)
    next
      case obj: True
      then have bo: "body_object self operation = Some b"
        using True b fty by (simp add: body_object_def frb)
      from rest2 obj obtain properties required items names where
        properties: "py_get b ''properties'' (PDict []) = Inr properties"
        and required: "py_get b ''required'' (PList []) = Inr required"
        and items: "py_items properties = Inr items"
        and loop: "add_body_properties items props = Inr props'"
        and names: "py_iter required = Inr names"
        and req': "req' = req @ names"
        by (auto simp: bind_eq_Inr)
      have "field b ''properties'' (PDict []) = PDict items"
        using properties items by (simp add: py_get_field py_items_eq_Inr)
      then have bp: "body_properties self operation = items"
        by (simp add: body_properties_def bo)
      have "field b ''required'' (PList []) = required" using required by (rule py_get_field)
      then have br: "body_required self operation = names"
        using names by (simp add: body_required_def bo)
      show ?thesis
        using add_body_properties_result[OF loop] req'
        by (simp add: br last_body_property_def bp)
    qed
  qed
qed

lemma generate_input_schema_steps:
  assumes "generate_input_schema self operation = Inr s"
  obtains st1 st2 st3 where
    "add_parameters ''path'' (operation_parameters operation) ([], []) = Inr st1"
    "add_parameters ''query'' (operation_parameters operation) st1 = Inr st2"
    "add_request_body self operation st2 = Inr st3"
    "s = PDict [(PStr ''type'', PStr ''object''), (PStr ''properties'', PDict (fst st3)),
                (PStr ''required'', PList (snd st3))]"
proof -
  from assms obtain parameters params st1 st2 st3 where
    parameters: "py_get operation ''parameters'' (PList []) = Inr parameters"
    and params: "py_iter parameters = Inr params"
    and s1: "add_parameters ''path'' params ([], []) = Inr st1"
    and s2: "add_parameters ''query'' params st1 = Inr st2"
    and s3: "add_request_body self operation st2 = Inr st3"
    and s: "s = PDict [(PStr ''type'', PStr ''object''), (PStr ''properties'', PDict (fst st3)),
                (PStr ''required'', PList (snd st3))]"
    unfolding generate_input_schema_def bind_eq_Inr by blast
  have "field operation ''parameters'' (PList []) = parameters"
    using parameters by (rule py_get_field)
  then have "operation_parameters operation = params"
    using params by (simp add: operation_parameters_def)
  then show ?thesis using that s1 s2 s3 s by blast
qed

lemma input_schema_result:
  assumes "generate_input_schema self operation = Inr s"
  shows "\<exists>props req.
    s = PDict [(PStr ''type'', PStr ''object''), (PStr ''properties'', PDict props),
                (PStr ''required'', PList req)]
    \<and> req = required_names ''path'' (operation_parameters operation)
           @ required_names ''query'' (operation_parameters operation)
           @ body_required self operation
    \<and> (\<forall>k. map_option Inr (dict_get props k) =
            (case last_body_property self operation k of
               Some d \<Rightarrow> Some (body_property d)
             | None \<Rightarrow>
                 (case last_param_named ''query'' (operation_parameters operation) k of
                    Some p \<Rightarrow> Some (param_property p)
                  | None \<Rightarrow>
                      (case last_param_named ''path'' (operation_parameters operation) k of
                         Some p \<Rightarrow> Some (param_property p)
                       | None \<Rightarrow> None))))"
proof -
  let ?ps = "operation_parameters operation"
  from assms obtain st1 st2 st3 where
    s1: "add_parameters ''path'' ?ps ([], []) = Inr st1"
    and s2: "add_parameters ''query'' ?ps st1 = Inr st2"
    and s3: "add_request_body self operation st2 = Inr st3"
    and s: "s = PDict [(PStr ''type'', PStr ''object''), (PStr ''properties'', PDict (fst st3)),
                (PStr ''required'', PList (snd st3))]"
    by (rule generate_input_schema_steps)
  obtain p1 r1 where st1: "st1 = (p1, r1)" by (cases st1)
  obtain p2 r2 where st2: "st2 = (p2, r2)" by (cases st2)
  obtain p3 r3 where st3: "st3 = (p3, r3)" by (cases st3)
  note a1 = add_parameters_result[OF s1[unfolded st1]]
  note a2 = add_parameters_result[OF s2[unfolded st1 st2]]
  note a3 = add_request_body_result[OF s3[unfolded st2 st3]]
  have req: "r3 = required_names ''path'' ?ps @ required_names ''query'' ?ps
                  @ body_required self operation"
    using a1 a2 a3 by simp
  have look: "map_option Inr (dict_get p3 k) =
                 (case last_body_property self operation k of
                    Some d \<Rightarrow> Some (body_property d)
                  | None \<Rightarrow>
                      (case last_param_named ''query'' ?ps k of
                         Some p \<Rightarrow> Some (param_property p)
                       | None \<Rightarrow>
                           (case last_param_named ''path'' ?ps k of
                              Some p \<Rightarrow> Some (param_property p)
                            | None \<Rightarrow> None)))" for k
    using a1 a2 a3 by (simp split: option.splits)
  show ?thesis
    using s st3 req look by (intro exI[of _ p3] exI[of _ r3]) simp
qed

text \<open>
  Claim C1, as the code has it. The body takes part when the request body is there
  (truthy) and its resolved JSON schema has the type \<^verbatim>\<open>object\<close>: \<open>body_properties\<close>
  and \<open>body_required\<close> are then the properties and the required list of that schema,
  and are empty otherwise. When the synthesizer returns, the required list is the names of
  the required path parameters, then those of the required query parameters, then the
  whole required list of the body, duplicates kept: a name required as a parameter and in
  the body is there at least twice. Under every key the entry of the properties is the one
  of the body property with that name; else the one of the last query parameter with that
  name; else the one of the last path parameter with that name; else there is none.
\<close>

theorem input_schema_merge_order:
  assumes "generate_input_schema self operation = Inr s"
  shows "\<exists>props req.
           s = PDict [(PStr ''type'', PStr ''object''), (PStr ''properties'', PDict props),
                      (PStr ''required'', PList req)]
         \<and> req = required_names ''path'' (operation_parameters operation)
                 @ required_names ''query'' (operation_parameters operation)
                 @ body_required self operation
         \<and> (\<forall>n. n \<in> set (required_names ''path'' (operation_parameters operation)
                          @ required_names ''query'' (operation_parameters operation))
                \<and> n \<in> set (body_required self operation) \<longrightarrow> 2 \<le> count_list req n)
         \<and> (\<forall>k. map_option Inr (dict_get props k) =
                 (case last_body_property self operation k of
                    Some d \<Rightarrow> Some (body_property d)
                  | None \<Rightarrow>
                      (case last_param_named ''query'' (operation_parameters operation) k of
                         Some p \<Rightarrow> Some (param_property p)
                       | None \<Rightarrow>
                           (case last_param_named ''path'' (operation_parameters operation) k of
                              Some p \<Rightarrow> Some (param_property p)
                            | None \<Rightarrow> None))))"
proof -
  let ?ps = "operation_parameters operation"
  obtain props req where
    s: "s = PDict [(PStr ''type'', PStr ''object''), (PStr ''properties'', PDict props),
                   (PStr ''required'', PList req)]"
    and req: "req = required_names ''path'' ?ps @ required_names ''query'' ?ps
                    @ body_required self operation"
    and look: "\<forall>k. map_option Inr (dict_get props k) =
                 (case last_body_property self operation k of
                    Some d \<Rightarrow> Some (body_property d)
                  | None \<Rightarrow>
                      (case last_param_named ''query'' ?ps k of
                         Some p \<Rightarrow> Some (param_property p)
                       | None \<Rightarrow>
                           (case last_param_named ''path'' ?ps k of
                              Some p \<Rightarrow> Some (param_property p)
                            | None \<Rightarrow> None)))"
    using input_schema_result[OF assms] by blast
  have twice: "2 \<le> count_list req n"
    if "n \<in> set (required_names ''path'' ?ps @ required_names ''query'' ?ps)"
      and "n \<in> set (body_required self operation)" for n
  proof -
    have "0 < count_list (required_names ''path'' ?ps @ required_names ''query'' ?ps) n"
      using that(1) by (simp only: count_list_0_iff neq0_conv[symmetric]) simp
    moreover have "0 < count_list (body_required self operation) n"
      using that(2) by (simp only: count_list_0_iff neq0_conv[symmetric]) simp
    ultimately show ?thesis unfolding req count_list_append by linarith
  qed
  show ?thesis
    using s req twice look by (intro exI[of _ props] exI[of _ req]) simp
qed
theorem input_schema_merge_order_witness:
  "\<exists>props req.
     generate_input_schema (generator_with [(PStr ''schemas'', PDict [(PStr ''Pet'', pet_schema)])])
       (PDict [(PStr ''parameters'', id_parameters),
               (PStr ''requestBody'',
                  json_body (PDict [(PStr ''$ref'', PStr ''#/components/schemas/Pet'')]))]) =
       Inr (PDict [(PStr ''type'', PStr ''object''), (PStr ''properties'', PDict props),
                   (PStr ''required'', PList req)])
     \<and> req = [PStr ''id'', PStr ''id'']
     \<and> 2 \<le> count_list req (PStr ''id'')
     \<and> dict_get props (PStr ''id'') =
         Some (PDict [(PStr ''type'', PStr ''integer''), (PStr ''description'', PStr [])])"
proof -
  let ?G = "generator_with [(PStr ''schemas'', PDict [(PStr ''Pet'', pet_schema)])]"
  let ?op = "PDict [(PStr ''parameters'', id_parameters),
               (PStr ''requestBody'',
                  json_body (PDict [(PStr ''$ref'', PStr ''#/components/schemas/Pet'')]))]"
  let ?s = "PDict [(PStr ''type'', PStr ''object''),
        (PStr ''properties'',
         PDict
          [(PStr ''id'',
            PDict [(PStr ''type'', PStr ''integer''), (PStr ''description'', PStr [])]),
           (PStr ''tag'',
            PDict
             [(PStr ''type'', PStr ''string''),
              (PStr ''description'', PStr ''a tag''),
              (PStr ''enum'', PList [PStr ''a'', PStr ''b''])])]),
        (PStr ''required'', PList [PStr ''id'', PStr ''id''])]"
  have run: "generate_input_schema ?G ?op = Inr ?s"
    by code_simp
  have rp: "required_names ''path'' (operation_parameters ?op) = [PStr ''id'']"
    by code_simp
  have rq: "required_names ''query'' (operation_parameters ?op) = []"
    by code_simp
  have rb: "body_required ?G ?op = [PStr ''id'']"
    by code_simp
  have lb: "last_body_property ?G ?op (PStr ''id'') = Some (PDict [(PStr ''type'', PStr ''integer'')])"
    by code_simp
  have bp: "body_property (PDict [(PStr ''type'', PStr ''integer'')]) =
            Inr (PDict [(PStr ''type'', PStr ''integer''), (PStr ''description'', PStr [])])"
    by code_simp
  from input_schema_merge_order[OF run] obtain props req where
    s: "?s = PDict [(PStr ''type'', PStr ''object''), (PStr ''properties'', PDict props),
                    (PStr ''required'', PList req)]"
    and req: "req = required_names ''path'' (operation_parameters ?op)
                 @ required_names ''query'' (operation_parameters ?op)
                 @ body_required ?G ?op"
    and twice: "\<forall>n. n \<in> set (required_names ''path'' (operation_parameters ?op)
                          @ required_names ''query'' (operation_parameters ?op))
                \<and> n \<in> set (body_required ?G ?op) \<longrightarrow> 2 \<le> count_list req n"
    and look: "\<forall>k. map_option Inr (dict_get props k) =
                 (case last_body_property ?G ?op k of
                    Some d \<Rightarrow> Some (body_property d)
                  | None \<Rightarrow>
                      (case last_param_named ''query'' (operation_parameters ?op) k of
                         Some p \<Rightarrow> Some (param_property p)
                       | None \<Rightarrow>
                           (case last_param_named ''path'' (operation_parameters ?op) k of
                              Some p \<Rightarrow> Some (param_property p)
                            | None \<Rightarrow> None)))"
    by blast
  have req2: "req = [PStr ''id'', PStr ''id'']"
    using req by (simp only: rp rq rb append.simps)
  have tw: "2 \<le> count_list req (PStr ''id'')"
    using twice[rule_format, of "PStr ''id''"] by (simp add: rp rq rb)
  have "map_option Inr (dict_get props (PStr ''id'')) =
        Some (Inr (PDict [(PStr ''type'', PStr ''integer''), (PStr ''description'', PStr [])])
              :: error + py)"
    using look[rule_format, of "PStr ''id''"] by (simp add: lb bp)
  then have lk: "dict_get props (PStr ''id'') =
         Some (PDict [(PStr ''type'', PStr ''integer''), (PStr ''description'', PStr [])])"
    by auto
  show ?thesis
    using run s req2 tw lk by (intro exI[of _ props] exI[of _ req]) simp
qed

theorem input_schema_untyped_body_counterexample:
  "generate_input_schema (generator_with [])
     (PDict [(PStr ''parameters'',
                PList [PDict [(PStr ''in'', PStr ''path''), (PStr ''name'', PStr ''a''),
                              (PStr ''required'', PBool True)]]),
             (PStr ''requestBody'',
                json_body (PDict [(PStr ''properties'',
                                     PDict [(PStr ''a'', PDict [(PStr ''type'', PStr ''integer'')])]),
                                  (PStr ''required'', PList [PStr ''a''])]))]) =
   Inr (PDict [(PStr ''type'', PStr ''object''),
               (PStr ''properties'',
                  PDict [(PStr ''a'', PDict [(PStr ''type'', PStr ''string''),
                                             (PStr ''description'', PStr [])])]),
               (PStr ''required'', PList [PStr ''a''])])"
  by code_simp

section \<open>Entries of body properties\<close>

lemma body_property_PDict:
  "body_property (PDict d) =
     Inr (PDict (filter (\<lambda>(k, v). v \<noteq> PNone)
       [(PStr ''type'', case dict_get d (PStr ''type'') of Some v \<Rightarrow> v | None \<Rightarrow> PStr ''string''),
        (PStr ''description'', case dict_get d (PStr ''description'') of Some v \<Rightarrow> v | None \<Rightarrow> PStr []),
        (PStr ''enum'', case dict_get d (PStr ''enum'') of Some v \<Rightarrow> v | None \<Rightarrow> PNone),
        (PStr ''minimum'', case dict_get d (PStr ''minimum'') of Some v \<Rightarrow> v | None \<Rightarrow> PNone),
        (PStr ''maximum'', case dict_get d (PStr ''maximum'') of Some v \<Rightarrow> v | None \<Rightarrow> PNone)]))"
  by (simp add: body_property_def)

text \<open>
  Claim C2, as the code has it. The entry the input schema holds for a body property has
  no key but \<^verbatim>\<open>type\<close>, \<^verbatim>\<open>description\<close>, \<^verbatim>\<open>enum\<close>, \<^verbatim>\<open>minimum\<close> and
  \<^verbatim>\<open>maximum\<close>. A field the source property has with a value other than null is copied; a
  field it has with the value null is left out; of the fields it does not have,
  \<^verbatim>\<open>type\<close> is there as \<^verbatim>\<open>string\<close> and \<^verbatim>\<open>description\<close> is there as the empty string,
  and the other three are left out.
\<close>

theorem body_property_entry:
  assumes "generate_input_schema self operation = Inr s"
    and "last_body_property self operation k = Some (PDict d)"
  shows "\<exists>props req fields.
           s = PDict [(PStr ''type'', PStr ''object''), (PStr ''properties'', PDict props),
                      (PStr ''required'', PList req)]
         \<and> dict_get props k = Some (PDict fields)
         \<and> set (map fst fields) \<subseteq>
             set (map PStr [''type'', ''description'', ''enum'', ''minimum'', ''maximum''])
         \<and> dict_get fields (PStr ''type'') =
             (case dict_get d (PStr ''type'') of
                None \<Rightarrow> Some (PStr ''string'')
              | Some v \<Rightarrow> if v = PNone then None else Some v)
         \<and> dict_get fields (PStr ''description'') =
             (case dict_get d (PStr ''description'') of
                None \<Rightarrow> Some (PStr [])
              | Some v \<Rightarrow> if v = PNone then None else Some v)
         \<and> (\<forall>f \<in> set [''enum'', ''minimum'', ''maximum''].
              dict_get fields (PStr f) =
                (case dict_get d (PStr f) of
                   None \<Rightarrow> None
                 | Some v \<Rightarrow> if v = PNone then None else Some v))"
proof -
  obtain props req where
    s: "s = PDict [(PStr ''type'', PStr ''object''), (PStr ''properties'', PDict props),
                   (PStr ''required'', PList req)]"
    and look: "\<forall>k. map_option Inr (dict_get props k) =
                 (case last_body_property self operation k of
                    Some d \<Rightarrow> Some (body_property d)
                  | None \<Rightarrow>
                      (case last_param_named ''query'' (operation_parameters operation) k of
                         Some p \<Rightarrow> Some (param_property p)
                       | None \<Rightarrow>
                           (case last_param_named ''path'' (operation_parameters operation) k of
                              Some p \<Rightarrow> Some (param_property p)
                            | None \<Rightarrow> None)))"
    using input_schema_result[OF assms(1)] by blast
  let ?fields = "filter (\<lambda>(k, v). v \<noteq> PNone)
       [(PStr ''type'', case dict_get d (PStr ''type'') of Some v \<Rightarrow> v | None \<Rightarrow> PStr ''string''),
        (PStr ''description'', case dict_get d (PStr ''description'') of Some v \<Rightarrow> v | None \<Rightarrow> PStr []),
        (PStr ''enum'', case dict_get d (PStr ''enum'') of Some v \<Rightarrow> v | None \<Rightarrow> PNone),
        (PStr ''minimum'', case dict_get d (PStr ''minimum'') of Some v \<Rightarrow> v | None \<Rightarrow> PNone),
        (PStr ''maximum'', case dict_get d (PStr ''maximum'') of Some v \<Rightarrow> v | None \<Rightarrow> PNone)]"
  have "map_option Inr (dict_get props k) = Some (Inr (PDict ?fields) :: error + py)"
    using look[rule_format, of k] assms(2) by (simp add: body_property_PDict)
  then have entry: "dict_get props k = Some (PDict ?fields)"
    by auto
  have keys: "set (map fst ?fields) \<subseteq>
             set (map PStr [''type'', ''description'', ''enum'', ''minimum'', ''maximum''])"
    by auto
  have ty: "dict_get ?fields (PStr ''type'') =
             (case dict_get d (PStr ''type'') of
                None \<Rightarrow> Some (PStr ''string'')
              | Some v \<Rightarrow> if v = PNone then None else Some v)"
    by (simp split: option.splits)
  have de: "dict_get ?fields (PStr ''description'') =
             (case dict_get d (PStr ''description'') of
                None \<Rightarrow> Some (PStr [])
              | Some v \<Rightarrow> if v = PNone then None else Some v)"
    by (simp split: option.splits)
  have en: "dict_get ?fields (PStr ''enum'') =
                (case dict_get d (PStr ''enum'') of
                   None \<Rightarrow> None
                 | Some v \<Rightarrow> if v = PNone then None else Some v)"
    by (simp split: option.splits)
  have mi: "dict_get ?fields (PStr ''minimum'') =
                (case dict_get d (PStr ''minimum'') of
                   None \<Rightarrow> None
                 | Some v \<Rightarrow> if v = PNone then None else Some v)"
    by (simp split: option.splits)
  have ma: "dict_get ?fields (PStr ''maximum'') =
                (case dict_get d (PStr ''maximum'') of
                   None \<Rightarrow> None
                 | Some v \<Rightarrow> if v = PNone then None else Some v)"
    by (simp split: option.splits)
  have rest: "\<forall>f \<in> set [''enum'', ''minimum'', ''maximum''].
              dict_get ?fields (PStr f) =
                (case dict_get d (PStr f) of
                   None \<Rightarrow> None
                 | Some v \<Rightarrow> if v = PNone then None else Some v)"
    using en mi ma by simp
  show ?thesis
    using s entry keys ty de rest
    by (intro exI[of _ props] exI[of _ req] exI[of _ ?fields] conjI)
qed
theorem body_property_entry_witness:
  "\<exists>props req fields.
     generate_input_schema (generator_with [])
       (PDict [(PStr ''requestBody'', json_body pet_schema)]) =
       Inr (PDict [(PStr ''type'', PStr ''object''), (PStr ''properties'', PDict props),
                   (PStr ''required'', PList req)])
     \<and> dict_get props (PStr ''tag'') = Some (PDict fields)
     \<and> dict_get fields (PStr ''type'') = Some (PStr ''string'')
     \<and> dict_get fields (PStr ''description'') = Some (PStr ''a tag'')
     \<and> dict_get fields (PStr ''enum'') = Some (PList [PStr ''a'', PStr ''b''])
     \<and> dict_get fields (PStr ''minimum'') = None
     \<and> dict_get fields (PStr ''maximum'') = None"
proof -
  let ?G = "generator_with []"
  let ?op = "PDict [(PStr ''requestBody'', json_body pet_schema)]"
  let ?d = "[(PStr ''type'', PStr ''string''), (PStr ''description'', PStr ''a tag''),
             (PStr ''enum'', PList [PStr ''a'', PStr ''b''])]"
  let ?s = "PDict [(PStr ''type'', PStr ''object''),
        (PStr ''properties'',
         PDict
          [(PStr ''id'',
            PDict [(PStr ''type'', PStr ''integer''), (PStr ''description'', PStr [])]),
           (PStr ''tag'',
            PDict
             [(PStr ''type'', PStr ''string''),
              (PStr ''description'', PStr ''a tag''),
              (PStr ''enum'', PList [PStr ''a'', PStr ''b''])])]),
        (PStr ''required'', PList [PStr ''id''])]"
  have run: "generate_input_schema ?G ?op = Inr ?s"
    by code_simp
  have lb: "last_body_property ?G ?op (PStr ''tag'') = Some (PDict ?d)"
    by code_simp
  from body_property_entry[OF run lb] obtain props req fields where
    s: "?s = PDict [(PStr ''type'', PStr ''object''), (PStr ''properties'', PDict props),
                    (PStr ''required'', PList req)]"
    and entry: "dict_get props (PStr ''tag'') = Some (PDict fields)"
    and ty: "dict_get fields (PStr ''type'') =
             (case dict_get ?d (PStr ''type'') of
                None \<Rightarrow> Some (PStr ''string'')
              | Some v \<Rightarrow> if v = PNone then None else Some v)"
    and de: "dict_get fields (PStr ''description'') =
             (case dict_get ?d (PStr ''description'') of
                None \<Rightarrow> Some (PStr [])
              | Some v \<Rightarrow> if v = PNone then None else Some v)"
    and rest: "\<forall>f \<in> set [''enum'', ''minimum'', ''maximum''].
              dict_get fields (PStr f) =
                (case dict_get ?d (PStr f) of
                   None \<Rightarrow> None
                 | Some v \<Rightarrow> if v = PNone then None else Some v)"
    by blast
  have ty': "dict_get fields (PStr ''type'') = Some (PStr ''string'')"
    using ty by simp
  have de': "dict_get fields (PStr ''description'') = Some (PStr ''a tag'')"
    using de by simp
  have en': "dict_get fields (PStr ''enum'') = Some (PList [PStr ''a'', PStr ''b''])"
    using rest by simp
  have mi': "dict_get fields (PStr ''minimum'') = None"
    using rest by simp
  have ma': "dict_get fields (PStr ''maximum'') = None"
    using rest by simp
  show ?thesis
    using run s entry ty' de' en' mi' ma'
    by (intro exI[of _ props] exI[of _ req] exI[of _ fields]) simp
qed

theorem body_property_description_counterexample:
  "generate_input_schema (generator_with [])
     (PDict [(PStr ''requestBody'',
        json_body (PDict [(PStr ''type'', PStr ''object''),
                          (PStr ''properties'', PDict [(PStr ''a'', PDict [])])]))]) =
   Inr (PDict [(PStr ''type'', PStr ''object''),
               (PStr ''properties'',
                  PDict [(PStr ''a'', PDict [(PStr ''type'', PStr ''string''),
                                             (PStr ''description'', PStr [])])]),
               (PStr ''required'', PList [])])"
  by code_simp

section \<open>References that resolve to nothing\<close>

lemma dict_get_without_key:
  "k \<noteq> key \<Longrightarrow>
   dict_get (filter (\<lambda>(n, v). n \<noteq> PStr key) d) (PStr k) = dict_get d (PStr k)"
  by (induction d) auto

lemma dict_get_removed_key:
  "dict_get (filter (\<lambda>(n, v). n \<noteq> PStr key) d) (PStr key) = None"
  by (induction d) auto

lemma input_schema_without_body_step:
  assumes "\<And>st. add_request_body self operation st = Inr st"
  shows "generate_input_schema self operation =
     bind (py_get operation ''parameters'' (PList [])) (\<lambda>parameters.
     bind (py_iter parameters) (\<lambda>params.
     bind (add_parameters ''path'' params ([], [])) (\<lambda>st1.
     bind (add_parameters ''query'' params st1) (\<lambda>st2.
       Inr (PDict [(PStr ''type'', PStr ''object''),
                   (PStr ''properties'', PDict (fst st2)),
                   (PStr ''required'', PList (snd st2))])))))"
  by (simp add: generate_input_schema_def assms)

lemma add_request_body_absent:
  "dict_get d (PStr ''requestBody'') = None \<Longrightarrow> add_request_body self (PDict d) st = Inr st"
  by (cases st) simp

text \<open>
  Claim C7, as the code has it. The body schema is a \<^verbatim>\<open>$ref\<close> object. When the pointer
  has the prefix \<^verbatim>\<open>#/components/schemas/\<close> and its last segment names no entry of the
  schemas registry, or when the pointer has not the prefix and the \<^verbatim>\<open>$ref\<close> object itself
  has no type \<^verbatim>\<open>object\<close> beside the pointer, the request-body step raises nothing and
  leaves the properties and the required list as they are: the input schema is the one
  of the operation without its request body.
\<close>

theorem unresolved_ref_contributes_nothing:
  assumes "dict_get d (PStr ''requestBody'') = Some request_body"
    and "py_get request_body ''content'' (PDict []) = Inr content"
    and "py_get content ''application/json'' (PDict []) = Inr json_content"
    and "py_get json_content ''schema'' (PDict []) = Inr (PDict body_schema)"
    and "dict_get body_schema (PStr ''$ref'') = Some (PStr r)"
    and "(startswith r ''#/components/schemas/''
          \<and> py_get (components self) ''schemas'' (PDict []) = Inr (PDict schemas)
          \<and> dict_get schemas (PStr (last (split_on (CHR ''/'') r))) = None)
       \<or> (\<not> startswith r ''#/components/schemas/''
          \<and> dict_get body_schema (PStr ''type'') \<noteq> Some (PStr ''object''))"
  shows "add_request_body self (PDict d) st = Inr st
       \<and> generate_input_schema self (PDict d) =
           generate_input_schema self (PDict (filter (\<lambda>(n, v). n \<noteq> PStr ''requestBody'') d))"
proof -
  have ne: "body_schema \<noteq> []" using assms(5) by auto
  have tr: "truthy request_body"
  proof (rule ccontr)
    assume "\<not> truthy request_body"
    moreover from assms(2) obtain rbd where "request_body = PDict rbd"
      by (auto simp: py_get_eq_Inr)
    ultimately have "request_body = PDict []" by simp
    then have "content = PDict []" using assms(2) by simp
    then have "json_content = PDict []" using assms(3) by simp
    then have "body_schema = []" using assms(4) by simp
    then show False using ne by simp
  qed
  have has: "py_in (PStr ''$ref'') (PDict body_schema) = Inr True"
    using assms(5) by (simp add: py_in_def)
  have idx: "py_index (PDict body_schema) ''$ref'' = Inr (PStr r)"
    using assms(5) by (simp add: py_index_def)
  have "\<exists>b. resolve_body_schema self request_body = Inr (PDict b)
           \<and> dict_get b (PStr ''type'') \<noteq> Some (PStr ''object'')"
    using assms(6)
  proof
    assume a: "startswith r ''#/components/schemas/''
          \<and> py_get (components self) ''schemas'' (PDict []) = Inr (PDict schemas)
          \<and> dict_get schemas (PStr (last (split_on (CHR ''/'') r))) = None"
    then have "resolve_body_schema self request_body = Inr (PDict [])"
      by (simp add: resolve_body_schema_def assms(2) assms(3) assms(4) has idx)
    then show ?thesis by simp
  next
    assume b: "\<not> startswith r ''#/components/schemas/''
          \<and> dict_get body_schema (PStr ''type'') \<noteq> Some (PStr ''object'')"
    then have "resolve_body_schema self request_body = Inr (PDict body_schema)"
      by (simp add: resolve_body_schema_def assms(2) assms(3) assms(4) has idx)
    then show ?thesis using b by simp
  qed
  then obtain b where b: "resolve_body_schema self request_body = Inr (PDict b)"
    and nt: "dict_get b (PStr ''type'') \<noteq> Some (PStr ''object'')"
    by blast
  have step: "add_request_body self (PDict d) st' = Inr st'" for st'
  proof (cases st')
    case (Pair props req)
    have "(case dict_get b (PStr ''type'') of None \<Rightarrow> PNone | Some v \<Rightarrow> v) \<noteq> PStr ''object''"
      using nt by (auto split: option.splits)
    then show ?thesis
      using Pair by (simp add: assms(1) tr b)
  qed
  let ?d' = "filter (\<lambda>(n, v). n \<noteq> PStr ''requestBody'') d"
  have step': "add_request_body self (PDict ?d') st' = Inr st'" for st'
    by (rule add_request_body_absent) (rule dict_get_removed_key)
  have "py_get (PDict ?d') ''parameters'' (PList []) = py_get (PDict d) ''parameters'' (PList [])"
    by (simp add: dict_get_without_key)
  then have "generate_input_schema self (PDict d) = generate_input_schema self (PDict ?d')"
    by (simp only: input_schema_without_body_step[OF step]
        input_schema_without_body_step[OF step'])
  then show ?thesis using step by simp
qed

theorem unresolved_ref_contributes_nothing_witness:
  "generate_input_schema (generator_with [(PStr ''schemas'', PDict [(PStr ''Pet'', pet_schema)])])
     (PDict [(PStr ''parameters'', id_parameters),
             (PStr ''requestBody'',
                json_body (PDict [(PStr ''$ref'', PStr ''#/components/schemas/Dog'')]))]) =
   generate_input_schema (generator_with [(PStr ''schemas'', PDict [(PStr ''Pet'', pet_schema)])])
     (PDict [(PStr ''parameters'', id_parameters)])
   \<and> generate_input_schema (generator_with [(PStr ''schemas'', PDict [(PStr ''Pet'', pet_schema)])])
     (PDict [(PStr ''parameters'', id_parameters),
             (PStr ''requestBody'',
                json_body (PDict [(PStr ''$ref'', PStr ''other.json#/Pet'')]))]) =
   generate_input_schema (generator_with [(PStr ''schemas'', PDict [(PStr ''Pet'', pet_schema)])])
     (PDict [(PStr ''parameters'', id_parameters)])
   \<and> generate_input_schema (generator_with [(PStr ''schemas'', PDict [(PStr ''Pet'', pet_schema)])])
     (PDict [(PStr ''parameters'', id_parameters)]) =
     Inr (PDict [(PStr ''type'', PStr ''object''),
                 (PStr ''properties'',
                    PDict [(PStr ''id'', PDict [(PStr ''type'', PStr ''string''),
                                                (PStr ''description'', PStr ''q'')])]),
                 (PStr ''required'', PList [PStr ''id''])])"
proof -
  let ?G = "generator_with [(PStr ''schemas'', PDict [(PStr ''Pet'', pet_schema)])]"
  let ?b1 = "[(PStr ''$ref'', PStr ''#/components/schemas/Dog'')]"
  let ?b2 = "[(PStr ''$ref'', PStr ''other.json#/Pet'')]"
  let ?d1 = "[(PStr ''parameters'', id_parameters), (PStr ''requestBody'', json_body (PDict ?b1))]"
  let ?d2 = "[(PStr ''parameters'', id_parameters), (PStr ''requestBody'', json_body (PDict ?b2))]"
  have c1: "(startswith ''#/components/schemas/Dog'' ''#/components/schemas/''
          \<and> py_get (components ?G) ''schemas'' (PDict []) = Inr (PDict [(PStr ''Pet'', pet_schema)])
          \<and> dict_get [(PStr ''Pet'', pet_schema)]
               (PStr (last (split_on (CHR ''/'') ''#/components/schemas/Dog''))) = None)
       \<or> (\<not> startswith ''#/components/schemas/Dog'' ''#/components/schemas/''
          \<and> dict_get ?b1 (PStr ''type'') \<noteq> Some (PStr ''object''))"
    by code_simp
  have c2: "(startswith ''other.json#/Pet'' ''#/components/schemas/''
          \<and> py_get (components ?G) ''schemas'' (PDict []) = Inr (PDict [(PStr ''Pet'', pet_schema)])
          \<and> dict_get [(PStr ''Pet'', pet_schema)]
               (PStr (last (split_on (CHR ''/'') ''other.json#/Pet''))) = None)
       \<or> (\<not> startswith ''other.json#/Pet'' ''#/components/schemas/''
          \<and> dict_get ?b2 (PStr ''type'') \<noteq> Some (PStr ''object''))"
    by code_simp
  have f1: "filter (\<lambda>(n, v). n \<noteq> PStr ''requestBody'') ?d1 = [(PStr ''parameters'', id_parameters)]"
    by simp
  have f2: "filter (\<lambda>(n, v). n \<noteq> PStr ''requestBody'') ?d2 = [(PStr ''parameters'', id_parameters)]"
    by simp
  have r: "generate_input_schema ?G (PDict [(PStr ''parameters'', id_parameters)]) =
     Inr (PDict [(PStr ''type'', PStr ''object''),
                 (PStr ''properties'',
                    PDict [(PStr ''id'', PDict [(PStr ''type'', PStr ''string''),
                                                (PStr ''description'', PStr ''q'')])]),
                 (PStr ''required'', PList [PStr ''id''])])"
    by code_simp
  have e1: "generate_input_schema ?G (PDict ?d1) =
            generate_input_schema ?G (PDict [(PStr ''parameters'', id_parameters)])"
    using unresolved_ref_contributes_nothing[where d = ?d1 and self = ?G
        and request_body = "json_body (PDict ?b1)" and body_schema = ?b1
        and r = "''#/components/schemas/Dog''" and schemas = "[(PStr ''Pet'', pet_schema)]"
        and content = "PDict [(PStr ''application/json'', PDict [(PStr ''schema'', PDict ?b1)])]"
        and json_content = "PDict [(PStr ''schema'', PDict ?b1)]", OF _ _ _ _ _ c1]
    by (simp only: f1) (simp add: json_body_def)
  have e2: "generate_input_schema ?G (PDict ?d2) =
            generate_input_schema ?G (PDict [(PStr ''parameters'', id_parameters)])"
    using unresolved_ref_contributes_nothing[where d = ?d2 and self = ?G
        and request_body = "json_body (PDict ?b2)" and body_schema = ?b2
        and r = "''other.json#/Pet''" and schemas = "[(PStr ''Pet'', pet_schema)]"
        and content = "PDict [(PStr ''application/json'', PDict [(PStr ''schema'', PDict ?b2)])]"
        and json_content = "PDict [(PStr ''schema'', PDict ?b2)]", OF _ _ _ _ _ c2]
    by (simp only: f2) (simp add: json_body_def)
  from e1 e2 r show ?thesis by (intro conjI)
qed

theorem unresolved_ref_with_siblings_counterexample:
  "generate_input_schema (generator_with [(PStr ''schemas'', PDict [(PStr ''Pet'', pet_schema)])])
     (PDict [(PStr ''requestBody'',
        json_body (PDict [(PStr ''$ref'', PStr ''other.json#/Pet''),
                          (PStr ''type'', PStr ''object''),
                          (PStr ''properties'', PDict [(PStr ''a'', PDict [])]),
                          (PStr ''required'', PList [PStr ''a''])]))]) =
   Inr (PDict [(PStr ''type'', PStr ''object''),
               (PStr ''properties'',
                  PDict [(PStr ''a'', PDict [(PStr ''type'', PStr ''string''),
                                             (PStr ''description'', PStr [])])]),
               (PStr ''required'', PList [PStr ''a''])])"
  by code_simp

section \<open>One tool for each supported operation\<close>

lemma generate_tool_truthy:
  assumes "generate_tool self path method operation = Inr tool"
  shows "truthy tool" and "field tool ''path'' PNone = path"
    and "field tool ''method'' PNone = PStr method"
proof -
  from assms obtain fields where tool: "tool = PDict fields"
    and m: "dict_get fields (PStr ''method'') = Some (PStr method)"
    and p: "dict_get fields (PStr ''path'') = Some path"
    by (rule generate_tool_fields)
  from m have "fields \<noteq> []" by auto
  then show "truthy tool" by (simp add: tool)
  show "field tool ''path'' PNone = path" by (simp add: tool p)
  show "field tool ''method'' PNone = PStr method" by (simp add: tool m)
qed

lemma supported_operations_Cons:
  "supported_operations ((path, PDict items) # rest) =
     map (\<lambda>(method, operation). (path, method, operation))
       (filter (\<lambda>(method, operation).
                  case method of PStr m \<Rightarrow> lower m \<in> set supported_methods | _ \<Rightarrow> False) items)
     @ supported_operations rest"
  by (simp add: supported_operations_def)

lemma path_item_tools_result:
  assumes run: "path_item_tools self path items acc = Inr tools"
    and P: "\<And>m operation tool.
              lower m \<in> set supported_methods \<Longrightarrow>
              generate_tool self path (upper m) operation = Inr tool \<Longrightarrow>
              P tool (path, PStr m, operation)"
  shows "\<exists>new. tools = acc @ new
           \<and> list_all2 P new
               (map (\<lambda>(method, operation). (path, method, operation))
                  (filter (\<lambda>(method, operation).
                     case method of PStr m \<Rightarrow> lower m \<in> set supported_methods | _ \<Rightarrow> False)
                     items))"
  using run
proof (induction items arbitrary: acc)
  case Nil
  then show ?case by simp
next
  case (Cons a items)
  obtain key operation where a: "a = (key, operation)" by (cases a)
  from Cons.prems a obtain m where m: "key = PStr m"
    by (cases key) simp_all
  show ?case
  proof (cases "lower m \<in> set supported_methods")
    case False
    then have "path_item_tools self path items acc = Inr tools"
      using Cons.prems a m by simp
    from Cons.IH[OF this] show ?thesis using False a m by simp
  next
    case True
    then obtain tool where tool: "generate_tool self path (upper m) operation = Inr tool"
      and rest: "(if truthy tool then path_item_tools self path items (acc @ [tool])
                  else path_item_tools self path items acc) = Inr tools"
      using Cons.prems a m by (auto simp: bind_eq_Inr)
    note t = generate_tool_truthy[OF tool]
    from rest t(1) have "path_item_tools self path items (acc @ [tool]) = Inr tools" by simp
    from Cons.IH[OF this] obtain new where new: "tools = (acc @ [tool]) @ new"
      and all: "list_all2 P new
               (map (\<lambda>(method, operation). (path, method, operation))
                  (filter (\<lambda>(method, operation).
                     case method of PStr m \<Rightarrow> lower m \<in> set supported_methods | _ \<Rightarrow> False)
                     items))"
      by blast
    have "P tool (path, PStr m, operation)" using True tool by (rule P)
    then show ?thesis
      using new all True a m by (intro exI[of _ "tool # new"]) simp
  qed
qed

lemma paths_tools_result:
  assumes run: "paths_tools self path_items acc = Inr tools"
    and P: "\<And>path m operation tool.
              lower m \<in> set supported_methods \<Longrightarrow>
              generate_tool self path (upper m) operation = Inr tool \<Longrightarrow>
              P tool (path, PStr m, operation)"
  shows "\<exists>new. tools = acc @ new \<and> list_all2 P new (supported_operations path_items)"
  using run
proof (induction path_items arbitrary: acc)
  case Nil
  then show ?case by (simp add: supported_operations_def)
next
  case (Cons a path_items)
  obtain path path_item where a: "a = (path, path_item)" by (cases a)
  from Cons.prems a obtain items mid where items: "path_item = PDict items"
    and inner: "path_item_tools self path items acc = Inr mid"
    and outer: "paths_tools self path_items mid = Inr tools"
    by (auto simp: bind_eq_Inr py_items_eq_Inr)
  from path_item_tools_result[OF inner, of P] P obtain new1 where n1: "mid = acc @ new1"
    and all1: "list_all2 P new1
               (map (\<lambda>(method, operation). (path, method, operation))
                  (filter (\<lambda>(method, operation).
                     case method of PStr m \<Rightarrow> lower m \<in> set supported_methods | _ \<Rightarrow> False)
                     items))"
    by blast
  from Cons.IH[OF outer] obtain new2 where n2: "tools = mid @ new2"
    and all2: "list_all2 P new2 (supported_operations path_items)"
    by blast
  have "tools = acc @ (new1 @ new2)" using n1 n2 by simp
  moreover have "list_all2 P (new1 @ new2) (supported_operations (a # path_items))"
    unfolding a items supported_operations_Cons using all1 all2 by (rule list_all2_appendI)
  ultimately show ?case by blast
qed

lemma lower_char_upper_char: "lower_char (upper_char c) = lower_char c"
proof (cases "97 \<le> (of_char c :: nat) \<and> (of_char c :: nat) \<le> 122")
  case False
  then have "upper_char c = c" by (auto simp: upper_char_def Let_def)
  then show ?thesis by simp
next
  case True
  then have u: "upper_char c = char_of ((of_char c :: nat) - 32)"
    by (simp add: upper_char_def Let_def)
  have o: "(of_char (char_of ((of_char c :: nat) - 32)) :: nat) = of_char c - 32"
    using True by auto
  have r: "65 \<le> (of_char c :: nat) - 32 \<and> (of_char c :: nat) - 32 \<le> 90"
    using True by arith
  have "lower_char (upper_char c) = char_of ((of_char c :: nat) - 32 + 32)"
    unfolding u lower_char_def Let_def o using r by (simp only: if_True simp_thms)
  also have "\<dots> = c" using True by simp
  also have "c = lower_char c" using True by (simp add: lower_char_def Let_def)
  finally show ?thesis .
qed

lemma lower_upper: "lower (upper m) = lower m"
  by (simp add: lower_def upper_def lower_char_upper_char)

lemma generate_tool_name:
  assumes "generate_tool self path method operation = Inr tool"
  shows "(truthy (field operation ''operationId'' PNone) \<longrightarrow>
            field tool ''name'' PNone = field operation ''operationId'' PNone)
       \<and> (\<not> truthy (field operation ''operationId'' PNone) \<longrightarrow>
            (\<exists>p. path = PStr p \<and> field tool ''name'' PNone = PStr (generate_operation_id p method)))"
proof -
  from assms obtain declared operation_id summary description input_schema responses request_body
    where d: "py_get operation ''operationId'' PNone = Inr declared"
      and oid: "(if \<not> truthy declared then
                   (case path of
                      PStr p \<Rightarrow> Inr (PStr (generate_operation_id p method))
                    | _ \<Rightarrow> Inl TypeError)
                 else Inr declared) = Inr operation_id"
      and tool: "tool = PDict [(PStr ''name'', operation_id),
                   (PStr ''method'', PStr method),
                   (PStr ''path'', path),
                   (PStr ''summary'', summary),
                   (PStr ''description'', description),
                   (PStr ''input_schema'', input_schema),
                   (PStr ''responses'', responses),
                   (PStr ''request_body'', request_body)]"
    unfolding generate_tool_def bind_eq_Inr by blast
  have f: "field operation ''operationId'' PNone = declared"
    using d by (rule py_get_field)
  have n: "field tool ''name'' PNone = operation_id" by (simp add: tool)
  show ?thesis
  proof (cases "truthy declared")
    case True
    then show ?thesis using oid f n by simp
  next
    case False
    then show ?thesis using oid f n by (cases path) simp_all
  qed
qed

lemma verb_prefix_supported:
  assumes "lower m \<in> set supported_methods"
  shows "verb_prefix p (upper m) = verb_prefix p m"
    and "verb_prefix p m \<in> set [''get'', ''create'', ''post'', ''update'', ''delete'', ''patch'']"
    and "lower m \<notin> set [''get'', ''post'', ''put'', ''delete''] \<Longrightarrow>
         lower m = ''patch'' \<and> verb_prefix p m = ''patch''"
proof -
  show "verb_prefix p (upper m) = verb_prefix p m"
    by (simp add: verb_prefix_def lower_upper)
  from assms consider "lower m = ''get''" | "lower m = ''post''" | "lower m = ''put''"
    | "lower m = ''delete''" | "lower m = ''patch''"
    by (auto simp: supported_methods_def)
  then show "verb_prefix p m \<in> set [''get'', ''create'', ''post'', ''update'', ''delete'', ''patch'']"
    by cases (simp_all add: verb_prefix_def)
  assume "lower m \<notin> set [''get'', ''post'', ''put'', ''delete'']"
  with assms have "lower m = ''patch''" by (auto simp: supported_methods_def)
  then show "lower m = ''patch'' \<and> verb_prefix p m = ''patch''"
    by (simp add: verb_prefix_def)
qed

lemma generate_operation_id_upper:
  "generate_operation_id p (upper m) = generate_operation_id p m"
  by (simp add: generate_operation_id_def verb_prefix_def lower_upper)

lemma generate_operation_id_prefix:
  "\<exists>suffix. generate_operation_id p m = verb_prefix p m @ suffix"
  by (simp add: generate_operation_id_def Let_def)

text \<open>
  Claim C3, as the code has it. When \<^verbatim>\<open>generate_tools\<close> returns, its tools stand one to
  one, in document order, for the (path, method) pairs of the paths mapping whose method
  in lower case is \<^verbatim>\<open>get\<close>, \<^verbatim>\<open>post\<close>, \<^verbatim>\<open>put\<close>, \<^verbatim>\<open>delete\<close> or \<^verbatim>\<open>patch\<close>: each is
  the descriptor \<^verbatim>\<open>_generate_tool\<close> builds for that path and the method in upper case.
  A pair with any other method has no tool. The name of a descriptor is the
  \<^verbatim>\<open>operationId\<close> of the operation when that is truthy; otherwise the path is a string and
  the name is a synthesized one, which begins with the verb prefix for the path and the
  method: one of \<^verbatim>\<open>get\<close>, \<^verbatim>\<open>create\<close>, \<^verbatim>\<open>post\<close>, \<^verbatim>\<open>update\<close>, \<^verbatim>\<open>delete\<close>, \<^verbatim>\<open>patch\<close>. The
  branch of the synthesizer that takes the method in lower case itself as the prefix is
  reached with \<^verbatim>\<open>patch\<close> only, never with a method outside the five.
\<close>

theorem tools_for_supported_methods:
  assumes "generate_tools self = Inr tools"
  shows "\<exists>path_items.
           paths self = PDict path_items
         \<and> length tools = length (supported_operations path_items)
         \<and> list_all2
             (\<lambda>tool (path, method, operation).
                \<exists>m. method = PStr m \<and> lower m \<in> set supported_methods
                   \<and> generate_tool self path (upper m) operation = Inr tool
                   \<and> field tool ''path'' PNone = path
                   \<and> field tool ''method'' PNone = PStr (upper m)
                   \<and> (truthy (field operation ''operationId'' PNone) \<longrightarrow>
                        field tool ''name'' PNone = field operation ''operationId'' PNone)
                   \<and> (\<not> truthy (field operation ''operationId'' PNone) \<longrightarrow>
                        (\<exists>p suffix.
                            path = PStr p
                          \<and> field tool ''name'' PNone = PStr (verb_prefix p m @ suffix)
                          \<and> verb_prefix p m \<in>
                              set [''get'', ''create'', ''post'', ''update'', ''delete'', ''patch'']
                          \<and> (lower m \<notin> set [''get'', ''post'', ''put'', ''delete''] \<longrightarrow>
                               lower m = ''patch'' \<and> verb_prefix p m = ''patch''))))
             tools (supported_operations path_items)"
proof -
  let ?P = "\<lambda>tool (path, method, operation).
                \<exists>m. method = PStr m \<and> lower m \<in> set supported_methods
                   \<and> generate_tool self path (upper m) operation = Inr tool
                   \<and> field tool ''path'' PNone = path
                   \<and> field tool ''method'' PNone = PStr (upper m)
                   \<and> (truthy (field operation ''operationId'' PNone) \<longrightarrow>
                        field tool ''name'' PNone = field operation ''operationId'' PNone)
                   \<and> (\<not> truthy (field operation ''operationId'' PNone) \<longrightarrow>
                        (\<exists>p suffix.
                            path = PStr p
                          \<and> field tool ''name'' PNone = PStr (verb_prefix p m @ suffix)
                          \<and> verb_prefix p m \<in>
                              set [''get'', ''create'', ''post'', ''update'', ''delete'', ''patch'']
                          \<and> (lower m \<notin> set [''get'', ''post'', ''put'', ''delete''] \<longrightarrow>
                               lower m = ''patch'' \<and> verb_prefix p m = ''patch'')))"
  from assms obtain path_items where p: "paths self = PDict path_items"
    and run: "paths_tools self path_items [] = Inr tools"
    by (auto simp: generate_tools_def bind_eq_Inr py_items_eq_Inr)
  have step: "?P tool (path, PStr m, operation)"
    if sup: "lower m \<in> set supported_methods"
      and tool: "generate_tool self path (upper m) operation = Inr tool"
    for path m operation tool
  proof -
    note t = generate_tool_truthy[OF tool]
    note n = generate_tool_name[OF tool]
    note v = verb_prefix_supported[OF sup]
    have named: "\<exists>p suffix.
                    path = PStr p
                  \<and> field tool ''name'' PNone = PStr (verb_prefix p m @ suffix)
                  \<and> verb_prefix p m \<in>
                      set [''get'', ''create'', ''post'', ''update'', ''delete'', ''patch'']
                  \<and> (lower m \<notin> set [''get'', ''post'', ''put'', ''delete''] \<longrightarrow>
                       lower m = ''patch'' \<and> verb_prefix p m = ''patch'')"
      if "\<not> truthy (field operation ''operationId'' PNone)"
    proof -
      from n that obtain p where pp: "path = PStr p"
        and nm: "field tool ''name'' PNone = PStr (generate_operation_id p (upper m))"
        by blast
      obtain suffix where sf: "generate_operation_id p m = verb_prefix p m @ suffix"
        using generate_operation_id_prefix by blast
      have nm': "field tool ''name'' PNone = PStr (generate_operation_id p m)"
        using nm by (simp only: generate_operation_id_upper)
      have "field tool ''name'' PNone = PStr (verb_prefix p m @ suffix)"
        using nm' sf by simp
      then show ?thesis
        using pp v(2)[of p] v(3)[of p] by blast
    qed
    show ?thesis
      using sup tool t(2) t(3) n named by simp
  qed
  from paths_tools_result[OF run, of ?P] step
  have all: "list_all2 ?P tools (supported_operations path_items)"
    by simp
  moreover from all have "length tools = length (supported_operations path_items)"
    by (rule list_all2_lengthD)
  ultimately show ?thesis using p by blast
qed

theorem tools_for_supported_methods_witness:
  "\<exists>tools path_items.
     generate_tools ((generator_with [])\<lparr>paths :=
        PDict [(PStr ''/pets'', PDict [(PStr ''get'', PDict []), (PStr ''head'', PDict []),
                                       (PStr ''PATCH'', PDict []),
                                       (PStr ''put'', PDict [(PStr ''operationId'', PStr ''replacePets'')])]),
               (PStr ''/pets/create'', PDict [(PStr ''post'', PDict [])]),
               (PStr ''/pets/{id}'', PDict [(PStr ''parameters'', PList []),
                                            (PStr ''delete'', PDict []),
                                            (PStr ''Put'', PDict [])])]\<rparr>) = Inr tools
   \<and> supported_operations path_items =
       [(PStr ''/pets'', PStr ''get'', PDict []), (PStr ''/pets'', PStr ''PATCH'', PDict []),
        (PStr ''/pets'', PStr ''put'', PDict [(PStr ''operationId'', PStr ''replacePets'')]),
        (PStr ''/pets/create'', PStr ''post'', PDict []),
        (PStr ''/pets/{id}'', PStr ''delete'', PDict []),
        (PStr ''/pets/{id}'', PStr ''Put'', PDict [])]
   \<and> length tools = 6
   \<and> map (\<lambda>tool. (field tool ''name'' PNone, field tool ''method'' PNone)) tools =
       [(PStr ''getPets'', PStr ''GET''), (PStr ''patchPets'', PStr ''PATCH''),
        (PStr ''replacePets'', PStr ''PUT''), (PStr ''createPetsCreate'', PStr ''POST''),
        (PStr ''deletePets'', PStr ''DELETE''), (PStr ''updatePets'', PStr ''PUT'')]"
proof -
  let ?items = "[(PStr ''/pets'', PDict [(PStr ''get'', PDict []), (PStr ''head'', PDict []),
                                       (PStr ''PATCH'', PDict []),
                                       (PStr ''put'', PDict [(PStr ''operationId'', PStr ''replacePets'')])]),
               (PStr ''/pets/create'', PDict [(PStr ''post'', PDict [])]),
               (PStr ''/pets/{id}'', PDict [(PStr ''parameters'', PList []),
                                            (PStr ''delete'', PDict []),
                                            (PStr ''Put'', PDict [])])]"
  let ?G = "(generator_with [])\<lparr>paths := PDict ?items\<rparr>"
  have "bind (generate_tools ?G)
          (\<lambda>tools. Inr (map (\<lambda>tool. (field tool ''name'' PNone, field tool ''method'' PNone)) tools)) =
        Inr [(PStr ''getPets'', PStr ''GET''), (PStr ''patchPets'', PStr ''PATCH''),
        (PStr ''replacePets'', PStr ''PUT''), (PStr ''createPetsCreate'', PStr ''POST''),
        (PStr ''deletePets'', PStr ''DELETE''), (PStr ''updatePets'', PStr ''PUT'')]"
    by code_simp
  then have "\<exists>tools. generate_tools ?G = Inr tools
          \<and> map (\<lambda>tool. (field tool ''name'' PNone, field tool ''method'' PNone)) tools =
       [(PStr ''getPets'', PStr ''GET''), (PStr ''patchPets'', PStr ''PATCH''),
        (PStr ''replacePets'', PStr ''PUT''), (PStr ''createPetsCreate'', PStr ''POST''),
        (PStr ''deletePets'', PStr ''DELETE''), (PStr ''updatePets'', PStr ''PUT'')]"
    by (simp add: bind_eq_Inr)
  then obtain tools where run: "generate_tools ?G = Inr tools"
    and names: "map (\<lambda>tool. (field tool ''name'' PNone, field tool ''method'' PNone)) tools =
       [(PStr ''getPets'', PStr ''GET''), (PStr ''patchPets'', PStr ''PATCH''),
        (PStr ''replacePets'', PStr ''PUT''), (PStr ''createPetsCreate'', PStr ''POST''),
        (PStr ''deletePets'', PStr ''DELETE''), (PStr ''updatePets'', PStr ''PUT'')]"
    by (elim exE conjE) (rule that)
  have ops: "supported_operations ?items =
       [(PStr ''/pets'', PStr ''get'', PDict []), (PStr ''/pets'', PStr ''PATCH'', PDict []),
        (PStr ''/pets'', PStr ''put'', PDict [(PStr ''operationId'', PStr ''replacePets'')]),
        (PStr ''/pets/create'', PStr ''post'', PDict []),
        (PStr ''/pets/{id}'', PStr ''delete'', PDict []),
        (PStr ''/pets/{id}'', PStr ''Put'', PDict [])]"
    by code_simp
  from tools_for_supported_methods[OF run] obtain path_items where
    p: "paths ?G = PDict path_items"
    and len: "length tools = length (supported_operations path_items)"
    by (elim exE conjE) (rule that)
  from p have pi: "path_items = ?items" by simp
  have l6: "length tools = 6" using len by (simp only: pi ops) simp
  have o6: "supported_operations path_items =
       [(PStr ''/pets'', PStr ''get'', PDict []), (PStr ''/pets'', PStr ''PATCH'', PDict []),
        (PStr ''/pets'', PStr ''put'', PDict [(PStr ''operationId'', PStr ''replacePets'')]),
        (PStr ''/pets/create'', PStr ''post'', PDict []),
        (PStr ''/pets/{id}'', PStr ''delete'', PDict []),
        (PStr ''/pets/{id}'', PStr ''Put'', PDict [])]"
    by (simp only: pi ops)
  show ?thesis
    by (rule exI[of _ tools], rule exI[of _ path_items]) (intro conjI run o6 l6 names)
qed

theorem unsupported_method_skipped_counterexample:
  "generate_tools ((generator_with [])\<lparr>paths :=
      PDict [(PStr ''/pets'', PDict [(PStr ''head'', PDict [(PStr ''operationId'', PStr ''probe'')]),
                                     (PStr ''options'', PDict [])])]\<rparr>) = Inr []"
  by code_simp

section \<open>Interfaces of object schemas\<close>

lemma property_lines_result:
  assumes "list_all2 (\<lambda>(n, d) t. is_dict d \<and> get_typescript_type str_of d = Inr t) props types"
  shows "property_lines str_of (PList req) props acc =
           Inr (acc @ concat (map2 (\<lambda>(n, d) t.
                  (if truthy (field d ''description'' (PStr []))
                   then [''  /** '' @ fstr str_of (field d ''description'' (PStr [])) @ '' */'']
                   else [])
                  @ [''  '' @ fstr str_of n @ (if list_ex (key_eq n) req then [] else ''?'')
                     @ '': '' @ t @ '';'']) props types))"
  using assms
proof (induction props types arbitrary: acc rule: list_all2_induct)
  case Nil
  then show ?case by simp
next
  case (Cons a props t types)
  obtain n d where a: "a = (n, d)" by (cases a)
  from Cons.hyps(1) a obtain dd where d: "d = PDict dd"
    and t: "get_typescript_type str_of (PDict dd) = Inr t"
    by (auto simp: is_dict_iff)
  show ?case
    unfolding a d
    by (simp add: t py_in_def Cons.IH del: get_typescript_type.simps)
qed

lemma join_first_nonempty: "x \<noteq> [] \<Longrightarrow> join sep (x # xs) \<noteq> []"
  by (cases xs) simp_all

lemma property_lines_prefix:
  "property_lines str_of required props acc = Inr ls \<Longrightarrow> \<exists>more. ls = acc @ more"
proof (induction props arbitrary: acc)
  case Nil
  then show ?case by simp
next
  case (Cons a props)
  obtain n d where a: "a = (n, d)" by (cases a)
  from Cons.prems a obtain acc' where "property_lines str_of required props (acc @ acc') = Inr ls"
    by (auto simp: bind_eq_Inr simp del: get_typescript_type.simps)
  from Cons.IH[OF this] show ?case by auto
qed

lemma generate_interface_nonempty_iff:
  assumes "generate_interface str_of name schema = Inr r"
  shows "r \<noteq> [] \<longleftrightarrow> field schema ''type'' PNone = PStr ''object''"
proof -
  from assms obtain ty where ty: "py_get schema ''type'' PNone = Inr ty"
    and rest: "(if ty \<noteq> PStr ''object'' then Inr []
       else
         bind (py_get schema ''properties'' (PDict [])) (\<lambda>properties.
         bind (py_get schema ''required'' (PList [])) (\<lambda>required.
         bind (py_items properties) (\<lambda>items.
         bind (property_lines str_of required items
                 [''interface '' @ fstr str_of name @ '' {'']) (\<lambda>interface_lines.
           Inr (join [CHR 0x0A] (interface_lines @ [''}''])))))))  = Inr r"
    by (auto simp: generate_interface_def bind_eq_Inr)
  have f: "field schema ''type'' PNone = ty" using ty by (rule py_get_field)
  show ?thesis
  proof (cases "ty = PStr ''object''")
    case False
    then show ?thesis using rest f by simp
  next
    case True
    with rest obtain required items ls where
      "property_lines str_of required items [''interface '' @ fstr str_of name @ '' {''] = Inr ls"
      and r: "r = join [CHR 0x0A] (ls @ [''}''])"
      by (auto simp: bind_eq_Inr)
    then obtain more where "ls = [''interface '' @ fstr str_of name @ '' {''] @ more"
      using property_lines_prefix by blast
    then have "r = join [CHR 0x0A] ((''interface '' @ fstr str_of name @ '' {'') # more @ [''}''])"
      using r by simp
    then have "r \<noteq> []" by (simp add: join_first_nonempty)
    then show ?thesis using True f by simp
  qed
qed

lemma schema_interfaces_result:
  assumes "list_all2 (\<lambda>(n, s) r. generate_interface str_of n s = Inr r) schemas rendered"
  shows "schema_interfaces str_of schemas acc =
           Inr (acc @ map snd (filter (\<lambda>((n, s), r). field s ''type'' PNone = PStr ''object'')
                                 (zip schemas rendered)))"
  using assms
proof (induction schemas rendered arbitrary: acc rule: list_all2_induct)
  case Nil
  then show ?case by simp
next
  case (Cons a schemas r rendered)
  obtain n s where a: "a = (n, s)" by (cases a)
  from Cons.hyps(1) a have g: "generate_interface str_of n s = Inr r" by simp
  note ne = generate_interface_nonempty_iff[OF g]
  show ?case
    unfolding a using ne by (simp add: g Cons.IH)
qed

text \<open>
  Claim C6. For a schema of type \<^verbatim>\<open>object\<close> whose properties are objects with string
  names and whose \<^verbatim>\<open>required\<close> is a list (or absent), the interface is the header line,
  then for each property in declaration order its field line, after a comment line when
  the property has a description, then the closing brace; the field line has the mark
  \<^verbatim>\<open>?\<close> exactly when the name is not in the required list. A schema object of any other
  type renders as the empty string, and the rendered interfaces are those of the object
  schemas only, in order, two line breaks between them.
\<close>

theorem interface_field_lines:
  shows "(dict_get sd (PStr ''type'') = Some (PStr ''object'')
          \<and> field (PDict sd) ''properties'' (PDict []) = PDict props
          \<and> field (PDict sd) ''required'' (PList []) = PList req
          \<and> list_all (\<lambda>(n, d). is_str n) props
          \<and> list_all2 (\<lambda>(n, d) t. is_dict d \<and> get_typescript_type str_of d = Inr t) props types
          \<longrightarrow>
          generate_interface str_of name (PDict sd) =
            Inr (join [CHR 0x0A]
                  ([''interface '' @ fstr str_of name @ '' {'']
                   @ concat (map2 (\<lambda>(n, d) t.
                       (if truthy (field d ''description'' (PStr []))
                        then [''  /** '' @ fstr str_of (field d ''description'' (PStr [])) @ '' */'']
                        else [])
                       @ [''  '' @ fstr str_of n @ (if n \<in> set req then [] else ''?'')
                          @ '': '' @ t @ '';'']) props types)
                   @ [''}''])))
       \<and> (dict_get sd (PStr ''type'') \<noteq> Some (PStr ''object'') \<longrightarrow>
            generate_interface str_of name (PDict sd) = Inr [])
       \<and> (py_get (components self) ''schemas'' (PDict []) = Inr (PDict schemas)
          \<and> list_all2 (\<lambda>(n, s) r. generate_interface str_of n s = Inr r) schemas rendered
          \<longrightarrow>
          generate_typescript_interfaces str_of self =
            Inr (join [CHR 0x0A, CHR 0x0A]
                  (map snd (filter (\<lambda>((n, s), r). field s ''type'' PNone = PStr ''object'')
                              (zip schemas rendered)))))"
proof (intro conjI impI)
  assume h: "dict_get sd (PStr ''type'') = Some (PStr ''object'')
          \<and> field (PDict sd) ''properties'' (PDict []) = PDict props
          \<and> field (PDict sd) ''required'' (PList []) = PList req
          \<and> list_all (\<lambda>(n, d). is_str n) props
          \<and> list_all2 (\<lambda>(n, d) t. is_dict d \<and> get_typescript_type str_of d = Inr t) props types"
  then have ty: "dict_get sd (PStr ''type'') = Some (PStr ''object'')"
    and p: "(case dict_get sd (PStr ''properties'') of Some v \<Rightarrow> v | None \<Rightarrow> PDict []) = PDict props"
    and r: "(case dict_get sd (PStr ''required'') of Some v \<Rightarrow> v | None \<Rightarrow> PList []) = PList req"
    and names: "list_all (\<lambda>(n, d). is_str n) props"
    and types: "list_all2 (\<lambda>(n, d) t. is_dict d \<and> get_typescript_type str_of d = Inr t) props types"
    by simp_all
  have mark: "list_ex (key_eq n) req \<longleftrightarrow> n \<in> set req" if "is_str n" for n
  proof -
    from that obtain s where "n = PStr s" by (cases n) (simp_all add: is_str_def)
    then show ?thesis by (auto simp: list_ex_iff)
  qed
  have same: "map2 (\<lambda>(n, d) t.
                  (if truthy (field d ''description'' (PStr []))
                   then [''  /** '' @ fstr str_of (field d ''description'' (PStr [])) @ '' */'']
                   else [])
                  @ [''  '' @ fstr str_of n @ (if list_ex (key_eq n) req then [] else ''?'')
                     @ '': '' @ t @ '';'']) props types =
              map2 (\<lambda>(n, d) t.
                  (if truthy (field d ''description'' (PStr []))
                   then [''  /** '' @ fstr str_of (field d ''description'' (PStr [])) @ '' */'']
                   else [])
                  @ [''  '' @ fstr str_of n @ (if n \<in> set req then [] else ''?'')
                     @ '': '' @ t @ '';'']) props types"
  proof (rule map_cong[OF refl])
    fix x assume x: "x \<in> set (zip props types)"
    obtain p t where xp: "x = (p, t)" by (cases x)
    from x xp have "p \<in> set props" by (auto dest: set_zip_leftD)
    then have "is_str (fst (fst x))" using names xp by (auto simp: list_all_iff)
    then show "(case x of (x, xa) \<Rightarrow> (case x of (n, d) \<Rightarrow> \<lambda>t.
                  (if truthy (field d ''description'' (PStr []))
                   then [''  /** '' @ fstr str_of (field d ''description'' (PStr [])) @ '' */'']
                   else [])
                  @ [''  '' @ fstr str_of n @ (if list_ex (key_eq n) req then [] else ''?'')
                     @ '': '' @ t @ '';'']) xa) =
            (case x of (x, xa) \<Rightarrow> (case x of (n, d) \<Rightarrow> \<lambda>t.
                  (if truthy (field d ''description'' (PStr []))
                   then [''  /** '' @ fstr str_of (field d ''description'' (PStr [])) @ '' */'']
                   else [])
                  @ [''  '' @ fstr str_of n @ (if n \<in> set req then [] else ''?'')
                     @ '': '' @ t @ '';'']) xa)"
      by (cases x) (auto simp: mark)
  qed
  have "generate_interface str_of name (PDict sd) =
        Inr (join [CHR 0x0A]
                  (([''interface '' @ fstr str_of name @ '' {'']
                   @ concat (map2 (\<lambda>(n, d) t.
                       (if truthy (field d ''description'' (PStr []))
                        then [''  /** '' @ fstr str_of (field d ''description'' (PStr [])) @ '' */'']
                        else [])
                       @ [''  '' @ fstr str_of n @ (if list_ex (key_eq n) req then [] else ''?'')
                          @ '': '' @ t @ '';'']) props types))
                   @ [''}'']))"
    by (simp add: generate_interface_def ty p r py_items_def
        property_lines_result[OF types])
  then show "generate_interface str_of name (PDict sd) =
            Inr (join [CHR 0x0A]
                  ([''interface '' @ fstr str_of name @ '' {'']
                   @ concat (map2 (\<lambda>(n, d) t.
                       (if truthy (field d ''description'' (PStr []))
                        then [''  /** '' @ fstr str_of (field d ''description'' (PStr [])) @ '' */'']
                        else [])
                       @ [''  '' @ fstr str_of n @ (if n \<in> set req then [] else ''?'')
                          @ '': '' @ t @ '';'']) props types)
                   @ [''}'']))"
    by (simp only: same append_assoc)
next
  assume "dict_get sd (PStr ''type'') \<noteq> Some (PStr ''object'')"
  then have "(case dict_get sd (PStr ''type'') of None \<Rightarrow> PNone | Some v \<Rightarrow> v) \<noteq> PStr ''object''"
    by (auto split: option.splits)
  then show "generate_interface str_of name (PDict sd) = Inr []"
    by (simp add: generate_interface_def)
next
  assume h: "py_get (components self) ''schemas'' (PDict []) = Inr (PDict schemas)
          \<and> list_all2 (\<lambda>(n, s) r. generate_interface str_of n s = Inr r) schemas rendered"
  then have all: "list_all2 (\<lambda>(n, s) r. generate_interface str_of n s = Inr r) schemas rendered"
    by simp
  show "generate_typescript_interfaces str_of self =
            Inr (join [CHR 0x0A, CHR 0x0A]
                  (map snd (filter (\<lambda>((n, s), r). field s ''type'' PNone = PStr ''object'')
                              (zip schemas rendered))))"
    using h by (simp add: generate_typescript_interfaces_def py_items_def
        schema_interfaces_result[OF all])
qed
theorem interface_field_lines_witness:
  "generate_interface (\<lambda>v. ''?'') (PStr ''Pet'') pet_schema =
     Inr (''interface Pet {'' @ [CHR 0x0A]
          @ ''  id: number;'' @ [CHR 0x0A]
          @ ''  /** a tag */'' @ [CHR 0x0A]
          @ ''  tag?: '' @ [CHR 0x22] @ ''a'' @ [CHR 0x22] @ '' | '' @ [CHR 0x22] @ ''b'' @ [CHR 0x22]
          @ '';'' @ [CHR 0x0A]
          @ ''}'')
   \<and> generate_interface (\<lambda>v. ''?'') (PStr ''Name'') (PDict [(PStr ''type'', PStr ''string'')]) = Inr []
   \<and> generate_typescript_interfaces (\<lambda>v. ''?'')
       (generator_with [(PStr ''schemas'',
          PDict [(PStr ''Name'', PDict [(PStr ''type'', PStr ''string'')]),
                 (PStr ''Pet'', pet_schema)])]) =
     Inr (''interface Pet {'' @ [CHR 0x0A]
          @ ''  id: number;'' @ [CHR 0x0A]
          @ ''  /** a tag */'' @ [CHR 0x0A]
          @ ''  tag?: '' @ [CHR 0x22] @ ''a'' @ [CHR 0x22] @ '' | '' @ [CHR 0x22] @ ''b'' @ [CHR 0x22]
          @ '';'' @ [CHR 0x0A]
          @ ''}'')"
proof -
  let ?str = "\<lambda>v::py. ''?''"
  let ?id = "PDict [(PStr ''type'', PStr ''integer'')]"
  let ?tag = "PDict [(PStr ''type'', PStr ''string''), (PStr ''description'', PStr ''a tag''),
                     (PStr ''enum'', PList [PStr ''a'', PStr ''b''])]"
  let ?props = "[(PStr ''id'', ?id), (PStr ''tag'', ?tag)]"
  let ?req = "[PStr ''id'']"
  let ?sd = "[(PStr ''type'', PStr ''object''), (PStr ''properties'', PDict ?props),
              (PStr ''required'', PList ?req)]"
  let ?name = "PDict [(PStr ''type'', PStr ''string'')]"
  let ?types = "[''number'', [CHR 0x22] @ ''a'' @ [CHR 0x22] @ '' | '' @ [CHR 0x22] @ ''b'' @ [CHR 0x22]]"
  let ?text = "''interface Pet {'' @ [CHR 0x0A]
          @ ''  id: number;'' @ [CHR 0x0A]
          @ ''  /** a tag */'' @ [CHR 0x0A]
          @ ''  tag?: '' @ [CHR 0x22] @ ''a'' @ [CHR 0x22] @ '' | '' @ [CHR 0x22] @ ''b'' @ [CHR 0x22]
          @ '';'' @ [CHR 0x0A]
          @ ''}''"
  let ?schemas = "[(PStr ''Name'', ?name), (PStr ''Pet'', PDict ?sd)]"
  let ?G = "generator_with [(PStr ''schemas'', PDict ?schemas)]"
  have pet: "pet_schema = PDict ?sd" by (simp add: pet_schema_def)
  have t1: "get_typescript_type ?str ?id = Inr ''number''" by code_simp
  have t2: "get_typescript_type ?str ?tag =
            Inr ([CHR 0x22] @ ''a'' @ [CHR 0x22] @ '' | '' @ [CHR 0x22] @ ''b'' @ [CHR 0x22])"
    by code_simp
  have h1: "dict_get ?sd (PStr ''type'') = Some (PStr ''object'')
          \<and> field (PDict ?sd) ''properties'' (PDict []) = PDict ?props
          \<and> field (PDict ?sd) ''required'' (PList []) = PList ?req
          \<and> list_all (\<lambda>(n, d). is_str n) ?props
          \<and> list_all2 (\<lambda>(n, d) t. is_dict d \<and> get_typescript_type ?str d = Inr t) ?props ?types"
    using t1 t2 by (simp add: is_str_def is_dict_def del: get_typescript_type.simps)
  have e1: "join [CHR 0x0A]
                  ([''interface '' @ fstr ?str (PStr ''Pet'') @ '' {'']
                   @ concat (map2 (\<lambda>(n, d) t.
                       (if truthy (field d ''description'' (PStr []))
                        then [''  /** '' @ fstr ?str (field d ''description'' (PStr [])) @ '' */'']
                        else [])
                       @ [''  '' @ fstr ?str n @ (if n \<in> set ?req then [] else ''?'')
                          @ '': '' @ t @ '';'']) ?props ?types)
                   @ [''}'']) = ?text"
    by code_simp
  note T1 = interface_field_lines[where sd = ?sd and props = ?props and req = ?req
      and types = ?types and str_of = ?str and name = "PStr ''Pet''" and self = ?G
      and schemas = ?schemas and rendered = "[[], ?text]"]
  note T2 = interface_field_lines[where sd = "[(PStr ''type'', PStr ''string'')]"
      and str_of = ?str and name = "PStr ''Name''"]
  have a: "generate_interface ?str (PStr ''Pet'') (PDict ?sd) = Inr ?text"
    using T1[THEN conjunct1, rule_format, OF h1] by (simp only: e1)
  have h2: "dict_get [(PStr ''type'', PStr ''string'')] (PStr ''type'') \<noteq> Some (PStr ''object'')"
    by simp
  have b: "generate_interface ?str (PStr ''Name'') ?name = Inr []"
    using T2[THEN conjunct2, THEN conjunct1, rule_format, OF h2] .
  have h3: "py_get (components ?G) ''schemas'' (PDict []) = Inr (PDict ?schemas)
          \<and> list_all2 (\<lambda>(n, s) r. generate_interface ?str n s = Inr r) ?schemas [[], ?text]"
    using a b by (simp add: generator_with_def)
  have e3: "join [CHR 0x0A, CHR 0x0A]
                  (map snd (filter (\<lambda>((n, s), r). field s ''type'' PNone = PStr ''object'')
                              (zip ?schemas [[], ?text]))) = ?text"
    by code_simp
  have c: "generate_typescript_interfaces ?str ?G = Inr ?text"
    using T1[THEN conjunct2, THEN conjunct2, rule_format, OF h3] by (simp only: e3)
  show ?thesis
    unfolding pet using a b c by (intro conjI)
qed

end
